theory Spec2Isabelle
  imports Complex_Main
begin

section \<open>Segment planning of the init-segmented-processing function\<close>

text \<open>
  The edge function (\<^verbatim>\<open>serve\<close>) receives the video duration from
  \<^verbatim>\<open>getVideoDuration\<close>, which returns \<^verbatim>\<open>null\<close> or the value of
  \<^verbatim>\<open>parseISO8601Duration\<close>: a sum of products of \<^verbatim>\<open>parseInt\<close> of digit
  strings, hence a non-negative whole number of seconds (\<open>0\<close> when the duration text does
  not match the pattern). It is modelled as \<open>nat option\<close>. The requested segment
  duration and the question limit come from the JSON body and are modelled as whole
  numbers of either sign; arithmetic is exact.
\<close>

record raw_segment =
  startTime :: int
  endTime :: int

text \<open>A JavaScript number that results from a division of whole numbers and
  \<^verbatim>\<open>Math.ceil\<close>: finite, or one of the three non-finite values.\<close>

datatype jsnum = Fin int | PosInf | NegInf | NaN

text \<open>\<^verbatim>\<open>Math.ceil(a / b)\<close>.\<close>

definition ceilDiv :: "int \<Rightarrow> int \<Rightarrow> jsnum" where
  "ceilDiv a b =
     (if b = 0 then (if 0 < a then PosInf else if a < 0 then NegInf else NaN)
      else Fin \<lceil>rat_of_int a / rat_of_int b\<rceil>)"

text \<open>\<^verbatim>\<open>let totalDuration = videoDuration || 1800\<close>: \<^verbatim>\<open>null\<close> and \<open>0\<close> are falsy.\<close>

definition totalDuration :: "nat option \<Rightarrow> int" where
  "totalDuration videoDuration =
     (case videoDuration of
        None \<Rightarrow> 1800
      | Some d \<Rightarrow> if d = 0 then 1800 else int d)"

text \<open>\<^verbatim>\<open>if (videoDuration) shouldSegment = videoDuration > segment_duration;
  else shouldSegment = true\<close>.\<close>

definition shouldSegment :: "nat option \<Rightarrow> int \<Rightarrow> bool" where
  "shouldSegment videoDuration segment_duration =
     (case videoDuration of
        None \<Rightarrow> True
      | Some d \<Rightarrow> if d = 0 then True else int d > segment_duration)"

text \<open>The loop \<^verbatim>\<open>for (let i = 0; i < totalSegments; i++) rawSegments.push(...)\<close>
  for a finite bound; \<open>acc\<close> is the array built so far.\<close>

function rawLoop :: "int \<Rightarrow> int \<Rightarrow> int \<Rightarrow> int \<Rightarrow> raw_segment list \<Rightarrow> raw_segment list" where
  "rawLoop i totalSegments segment_duration tot acc =
     (if i < totalSegments
      then rawLoop (i + 1) totalSegments segment_duration tot
             (acc @ [\<lparr>startTime = i * segment_duration,
                      endTime = min ((i + 1) * segment_duration) tot\<rparr>])
      else acc)"
  by pat_completeness auto
termination
  by (relation "measure (\<lambda>(i, n, s, t, acc). nat (n - i))") auto

declare rawLoop.simps [simp del]

text \<open>The raw segments of a video of length \<open>tot\<close>. With a bound of \<open>+Infinity\<close>
  (segment duration \<open>0\<close>) the loop condition never fails and the function does not
  return: \<open>None\<close>. \<open>-Infinity\<close> and \<open>NaN\<close> make the condition false at once.\<close>

definition rawSegments :: "int \<Rightarrow> int \<Rightarrow> raw_segment list option" where
  "rawSegments tot segment_duration =
     (case ceilDiv tot segment_duration of
        Fin n \<Rightarrow> Some (rawLoop 0 n segment_duration tot [])
      | PosInf \<Rightarrow> None
      | NegInf \<Rightarrow> Some []
      | NaN \<Rightarrow> Some [])"

text \<open>The merge of a last segment shorter than 20 seconds into its predecessor:
  \<^verbatim>\<open>pop()\<close>, then the new last element's \<^verbatim>\<open>endTime\<close> is set to the total.\<close>

definition mergeShortLast :: "int \<Rightarrow> raw_segment list \<Rightarrow> raw_segment list" where
  "mergeShortLast tot rs =
     (if length rs > 1 then
        (let lastSegment = last rs;
             lastSegmentDuration = endTime lastSegment - startTime lastSegment
         in if lastSegmentDuration < 20
            then (let popped = butlast rs
                  in popped[length popped - 1 :=
                       (popped ! (length popped - 1))\<lparr>endTime := tot\<rparr>])
            else rs)
      else rs)"

text \<open>\<^verbatim>\<open>Math.min(Math.ceil((endTime - startTime) / 60), max_questions_per_segment)\<close>.\<close>

definition expectedQuestions :: "int \<Rightarrow> raw_segment \<Rightarrow> int" where
  "expectedQuestions max_questions_per_segment r =
     min \<lceil>rat_of_int (endTime r - startTime r) / 60\<rceil> max_questions_per_segment"

text \<open>A row of \<^verbatim>\<open>course_segments\<close>. The title, a display string built with
  \<^verbatim>\<open>formatSecondsForDisplay\<close>, is left out.\<close>

record segment_row =
  seg_course_id :: string
  segment_index :: nat
  start_time :: int
  end_time :: int
  seg_status :: string

definition mkSegment :: "string \<Rightarrow> nat \<Rightarrow> raw_segment \<Rightarrow> segment_row" where
  "mkSegment course_id i r =
     \<lparr>seg_course_id = course_id, segment_index = i, start_time = startTime r,
      end_time = endTime r, seg_status = ''pending''\<rparr>"

text \<open>The loop that creates the segment objects and adds up
  \<^verbatim>\<open>totalExpectedQuestions\<close>. The state is the index, the \<^verbatim>\<open>segments\<close> array, the
  expected count of each segment (the value logged per segment) and the running total.\<close>

fun segmentLoop ::
  "string \<Rightarrow> int \<Rightarrow> nat \<Rightarrow> raw_segment list \<Rightarrow> segment_row list \<times> int list \<times> int
     \<Rightarrow> segment_row list \<times> int list \<times> int" where
  "segmentLoop course_id maxq i [] st = st"
| "segmentLoop course_id maxq i (r # rs) (segments, logged, totalExpectedQuestions) =
     segmentLoop course_id maxq (Suc i) rs
       (segments @ [mkSegment course_id i r],
        logged @ [expectedQuestions maxq r],
        totalExpectedQuestions + expectedQuestions maxq r)"

text \<open>The list of \<open>(start, end)\<close> pairs the function turns into rows, in both branches:
  one pair for the whole video when \<open>shouldSegment\<close> is false, the merged raw segments
  otherwise.\<close>

definition plannedSegments :: "nat option \<Rightarrow> int \<Rightarrow> raw_segment list option" where
  "plannedSegments videoDuration segment_duration =
     (if \<not> shouldSegment videoDuration segment_duration
      then Some [\<lparr>startTime = 0, endTime = totalDuration videoDuration\<rparr>]
      else map_option (mergeShortLast (totalDuration videoDuration))
             (rawSegments (totalDuration videoDuration) segment_duration))"


section \<open>YouTube URL patterns\<close>

text \<open>
  The two regular expressions of the sources, written out as matchers on character
  lists. A string is searched from the left; at each position the pattern is tried on the
  rest of the string (\<^verbatim>\<open>String.prototype.match\<close> with a non-global expression
  returns the leftmost match). Characters are the code units of an ASCII URL.
\<close>

text \<open>The class \<^verbatim>\<open>[^&\n?#]\<close>.\<close>

definition idChar :: "char \<Rightarrow> bool" where
  "idChar c \<longleftrightarrow> c \<noteq> CHR ''&'' \<and> c \<noteq> CHR 0x0A \<and> c \<noteq> CHR ''?'' \<and> c \<noteq> CHR ''#''"

text \<open>The group \<^verbatim>\<open>([^&\n?#]+)\<close> at the head of a string: the longest non-empty run.\<close>

definition captureId :: "string \<Rightarrow> string option" where
  "captureId s = (if takeWhile idChar s = [] then None else Some (takeWhile idChar s))"

text \<open>A literal followed by the group.\<close>

definition literalThenId :: "string \<Rightarrow> string \<Rightarrow> string option" where
  "literalThenId lit s =
     (if take (length lit) s = lit then captureId (drop (length lit) s) else None)"

text \<open>\<^verbatim>\<open>(?:youtube\.com\/watch\?v=|youtu\.be\/|youtube\.com\/embed\/)([^&\n?#]+)\<close>
  tried at the head of a string, the alternatives in their order.\<close>

definition shortPatternAt :: "string \<Rightarrow> string option" where
  "shortPatternAt s =
     (case literalThenId ''youtube.com/watch?v='' s of
        Some v \<Rightarrow> Some v
      | None \<Rightarrow>
          (case literalThenId ''youtu.be/'' s of
             Some v \<Rightarrow> Some v
           | None \<Rightarrow> literalThenId ''youtube.com/embed/'' s))"

text \<open>\<^verbatim>\<open>.*v=([^&\n?#]+)\<close> at the head of a string. The dot matches any character
  but a line terminator, and the star is greedy: a longer run is preferred.\<close>

definition lineTerminator :: "char \<Rightarrow> bool" where
  "lineTerminator c \<longleftrightarrow> c = CHR 0x0A \<or> c = CHR 0x0D"

fun anyThenV :: "string \<Rightarrow> string option" where
  "anyThenV [] = None"
| "anyThenV (c # cs) =
     (case (if lineTerminator c then None else anyThenV cs) of
        Some v \<Rightarrow> Some v
      | None \<Rightarrow> literalThenId ''v='' (c # cs))"

text \<open>\<^verbatim>\<open>youtube\.com\/watch\?.*v=([^&\n?#]+)\<close> at the head of a string.\<close>

definition longPatternAt :: "string \<Rightarrow> string option" where
  "longPatternAt s =
     (if take (length ''youtube.com/watch?'') s = ''youtube.com/watch?''
      then anyThenV (drop (length ''youtube.com/watch?'') s) else None)"

text \<open>The leftmost match of a pattern in a string; the result is the group.\<close>

fun regexMatch :: "(string \<Rightarrow> string option) \<Rightarrow> string \<Rightarrow> string option" where
  "regexMatch pat [] = pat []"
| "regexMatch pat (c # cs) =
     (case pat (c # cs) of Some v \<Rightarrow> Some v | None \<Rightarrow> regexMatch pat cs)"

text \<open>\<^verbatim>\<open>isValidYouTubeUrl\<close> of the analyze endpoint: the patterns in their order,
  true at the first that matches.\<close>

definition isValidYouTubeUrl :: "string \<Rightarrow> bool" where
  "isValidYouTubeUrl url =
     (if regexMatch shortPatternAt url \<noteq> None then True
      else if regexMatch longPatternAt url \<noteq> None then True
      else False)"

text \<open>\<^verbatim>\<open>extractVideoId\<close> of the edge function: the first pattern only.\<close>

definition extractVideoId :: "string \<Rightarrow> string option" where
  "extractVideoId url = regexMatch shortPatternAt url"


section \<open>The database and the outside world\<close>

text \<open>
  The tables are lists of rows. Rows hold the columns the functions below read or
  decide on; display texts (titles built from formatted times, messages, the
  \<^verbatim>\<open>current_step\<close> text, the metadata object but for its
  \<^verbatim>\<open>background_processing\<close> mark) are left out.
\<close>

record course_row =
  c_id :: string
  c_youtube_url :: string
  c_created_at :: nat
  c_created_by :: "string option"
  c_published :: bool
  c_description :: string
  c_is_segmented :: bool
  c_total_segments :: "int option"
  c_segment_duration :: "int option"
  c_total_duration :: "int option"

record question_row =
  q_id :: string
  q_course_id :: string

record progress_row =
  p_course_id :: string
  p_session_id :: string
  p_stage :: string
  p_background_processing :: bool

record rating_row =
  ur_user_id :: string
  ur_course_id :: string
  ur_rating :: int
  ur_context :: string

text \<open>The schema of \<^verbatim>\<open>quiz_generation_progress\<close> is not among the sources:
  \<open>progress_key_enforced\<close> says whether the table rejects a second row with the same
  \<^verbatim>\<open>(course_id, session_id)\<close>. \<open>orchestrated\<close> lists the courses for which the
  segment orchestrator has been triggered.\<close>

record world =
  courses :: "course_row list"
  questions :: "question_row list"
  course_segments :: "segment_row list"
  quiz_generation_progress :: "progress_row list"
  user_course_ratings :: "rating_row list"
  progress_key_enforced :: bool
  orchestrated :: "string list"

text \<open>\<^verbatim>\<open>.upsert(row, { onConflict: ... })\<close>: the row with the same key is replaced,
  a row with a new key is added.\<close>

definition upsertBy :: "('a \<Rightarrow> 'k) \<Rightarrow> 'a \<Rightarrow> 'a list \<Rightarrow> 'a list" where
  "upsertBy key row tbl =
     (if list_ex (\<lambda>r. key r = key row) tbl
      then map (\<lambda>r. if key r = key row then row else r) tbl
      else tbl @ [row])"

definition progressKey :: "progress_row \<Rightarrow> string \<times> string" where
  "progressKey r = (p_course_id r, p_session_id r)"

definition ratingKey :: "rating_row \<Rightarrow> string \<times> string" where
  "ratingKey r = (ur_user_id r, ur_course_id r)"

definition upsertProgress :: "progress_row \<Rightarrow> world \<Rightarrow> world" where
  "upsertProgress row w =
     w\<lparr>quiz_generation_progress := upsertBy progressKey row (quiz_generation_progress w)\<rparr>"

text \<open>\<^verbatim>\<open>.insert(row)\<close> into the progress table. The callers do not look at the
  result, so a rejected insert leaves the table as it was and goes unnoticed.\<close>

definition insertProgress :: "progress_row \<Rightarrow> world \<Rightarrow> world" where
  "insertProgress row w =
     (if progress_key_enforced w
         \<and> list_ex (\<lambda>r. progressKey r = progressKey row) (quiz_generation_progress w)
      then w
      else w\<lparr>quiz_generation_progress := quiz_generation_progress w @ [row]\<rparr>)"

text \<open>JavaScript truthiness of an optional string: \<^verbatim>\<open>undefined\<close> and \<^verbatim>\<open>''\<close>
  are falsy.\<close>

definition truthy :: "string option \<Rightarrow> bool" where
  "truthy v = (case v of None \<Rightarrow> False | Some s \<Rightarrow> s \<noteq> [])"

section \<open>The edge function init-segmented-processing\<close>

record init_request =
  ir_course_id :: string
  ir_youtube_url :: string
  ir_max_questions_per_segment :: "int option"
  ir_segment_duration :: "int option"
  ir_session_id :: "string option"

text \<open>What the services the function calls answer: the duration lookup of the YouTube
  API, the errors of the two checked database calls, and the orchestrator's response.\<close>

record serve_env =
  getVideoDuration :: "string \<Rightarrow> nat option"
  courseUpdateError :: "string option"
  segmentsError :: "string option"
  orchestratorOk :: bool
  orchestratorText :: string

text \<open>The response: HTTP status and the fields of the JSON body.\<close>

record init_result =
  res_status :: nat
  res_success :: bool
  res_error :: "string option"
  res_segmented :: "bool option"
  res_total_segments :: "nat option"
  res_segment_duration :: "int option"
  res_video_duration :: "int option"
  res_segments :: "segment_row list"
  res_video_summary :: "string option"

definition failure :: "string \<Rightarrow> init_result" where
  "failure msg =
     \<lparr>res_status = 500, res_success = False, res_error = Some msg, res_segmented = None,
      res_total_segments = None, res_segment_duration = None, res_video_duration = None,
      res_segments = [], res_video_summary = None\<rparr>"

definition max_questions_per_segment :: "init_request \<Rightarrow> int" where
  "max_questions_per_segment req =
     (case ir_max_questions_per_segment req of None \<Rightarrow> 5 | Some m \<Rightarrow> m)"

definition segment_duration :: "init_request \<Rightarrow> int" where
  "segment_duration req = (case ir_segment_duration req of None \<Rightarrow> 300 | Some s \<Rightarrow> s)"

definition finiteOrNull :: "jsnum \<Rightarrow> int option" where
  "finiteOrNull x = (case x of Fin n \<Rightarrow> Some n | _ \<Rightarrow> None)"

text \<open>The first update of the course row.\<close>

definition updateCourseSegmentation :: "string \<Rightarrow> bool \<Rightarrow> int \<Rightarrow> int \<Rightarrow> world \<Rightarrow> world" where
  "updateCourseSegmentation course_id seg tot sd w =
     w\<lparr>courses := map (\<lambda>c. if c_id c = course_id
          then c\<lparr>c_is_segmented := seg,
                 c_total_segments := (if seg then finiteOrNull (ceilDiv tot sd) else Some 1),
                 c_segment_duration := Some sd,
                 c_total_duration := Some (max 1 tot)\<rparr>
          else c) (courses w)\<rparr>"

definition updateSegmentCount :: "string \<Rightarrow> nat \<Rightarrow> world \<Rightarrow> world" where
  "updateSegmentCount course_id n w =
     w\<lparr>courses := map (\<lambda>c. if c_id c = course_id
          then c\<lparr>c_total_segments := Some (int n)\<rparr> else c) (courses w)\<rparr>"

definition planningRow :: "string \<Rightarrow> string \<Rightarrow> progress_row" where
  "planningRow course_id session_id =
     \<lparr>p_course_id = course_id, p_session_id = session_id, p_stage = ''planning'',
      p_background_processing = False\<rparr>"

text \<open>\<^verbatim>\<open>if (session_id) await supabase.from('quiz_generation_progress').insert(...)\<close>.\<close>

definition initProgressTracking :: "init_request \<Rightarrow> world \<Rightarrow> world" where
  "initProgressTracking req w =
     (case ir_session_id req of
        None \<Rightarrow> w
      | Some sid \<Rightarrow> if sid = [] then w
                    else insertProgress (planningRow (ir_course_id req) sid) w)"

text \<open>The trigger of the orchestrator and the final response, shared by the two
  branches: a response that is not OK is thrown and ends as status 500.\<close>

definition triggerOrchestrator :: "serve_env \<Rightarrow> init_request \<Rightarrow> init_result \<Rightarrow> world
    \<Rightarrow> init_result option \<times> world" where
  "triggerOrchestrator env req okResult w =
     (let w' = w\<lparr>orchestrated := orchestrated w @ [ir_course_id req]\<rparr>
      in if \<not> orchestratorOk env
         then (Some (failure (''Failed to trigger orchestrator: '' @ orchestratorText env)), w')
         else (Some okResult, w'))"

text \<open>The body of \<^verbatim>\<open>serve\<close> for a POST (the answer to the CORS pre-flight
  request is not modelled). Whatever is thrown inside ends in the catch block as a
  response with status 500. The result is \<open>None\<close> when the function does not return
  (the raw-segment loop with an infinite bound); the world holds the writes made up to
  then.\<close>

definition serve :: "serve_env \<Rightarrow> init_request \<Rightarrow> world \<Rightarrow> init_result option \<times> world" where
  "serve env req w =
    (case extractVideoId (ir_youtube_url req) of
       None \<Rightarrow> (Some (failure ''Invalid YouTube URL''), w)
     | Some videoId \<Rightarrow>
        (let videoDuration = getVideoDuration env videoId;
             tot = totalDuration videoDuration;
             seg = shouldSegment videoDuration (segment_duration req)
         in case courseUpdateError env of
              Some msg \<Rightarrow> (Some (failure (''Failed to update course: '' @ msg)), w)
            | None \<Rightarrow>
               (let w1 = updateCourseSegmentation (ir_course_id req) seg tot
                           (segment_duration req) w
                in if \<not> seg then
                     (let segments = [mkSegment (ir_course_id req) 0
                                        \<lparr>startTime = 0, endTime = tot\<rparr>]
                      in case segmentsError env of
                           Some msg \<Rightarrow> (Some (failure (''Failed to create segment: '' @ msg)), w1)
                         | None \<Rightarrow>
                            triggerOrchestrator env req
                              \<lparr>res_status = 200, res_success = True, res_error = None,
                               res_segmented = Some False, res_total_segments = Some 1,
                               res_segment_duration = Some tot,
                               res_video_duration = Some tot,
                               res_segments = segments, res_video_summary = None\<rparr>
                              (initProgressTracking req
                                 (w1\<lparr>course_segments := course_segments w1 @ segments\<rparr>)))
                   else
                     (case rawSegments tot (segment_duration req) of
                        None \<Rightarrow> (None, w1)
                      | Some raw \<Rightarrow>
                         (let (segments, logged, totalExpectedQuestions) =
                                segmentLoop (ir_course_id req) (max_questions_per_segment req) 0
                                  (mergeShortLast tot raw) ([], [], 0)
                          in case segmentsError env of
                               Some msg \<Rightarrow>
                                 (Some (failure (''Failed to create segments: '' @ msg)), w1)
                             | None \<Rightarrow>
                                triggerOrchestrator env req
                                  \<lparr>res_status = 200, res_success = True, res_error = None,
                                   res_segmented = Some True,
                                   res_total_segments = Some (length segments),
                                   res_segment_duration = Some (segment_duration req),
                                   res_video_duration = Some tot,
                                   res_segments = segments, res_video_summary = None\<rparr>
                                  (initProgressTracking req
                                     (updateSegmentCount (ir_course_id req) (length segments)
                                        (w1\<lparr>course_segments :=
                                              course_segments w1 @ segments\<rparr>))))))))"


section \<open>The analyze endpoint (analyze-video-smart)\<close>

record analyze_request =
  a_method :: string
  a_course_id :: "string option"
  a_youtube_url :: "string option"
  a_session_id :: "string option"
  a_max_questions :: "int option"
  a_segment_duration :: "int option"
  a_useCache :: "bool option"

text \<open>What the handler's surroundings answer. \<^verbatim>\<open>extractVideoId\<close> of
  \<^verbatim>\<open>@/utils/youtube\<close> is not among the sources and is a parameter; \<open>authUser\<close> is
  the user id the bearer token resolves to, if any; \<open>courseInsert\<close> is the outcome of
  the insert into \<^verbatim>\<open>courses\<close>: the error message, or the id of the new row.\<close>

record analyze_env =
  authUser :: "string option"
  utilsExtractVideoId :: "string \<Rightarrow> string option"
  cacheError :: bool
  questionsError :: "string \<Rightarrow> bool"
  videoDescription :: string
  courseInsert :: "string + string"
  createdAt :: nat

text \<open>The outcome of \<^verbatim>\<open>fetch\<close> with the 30 second abort signal: the abort, another
  thrown error, or the response of the edge function.\<close>

datatype fetch_outcome = AbortError | OtherError string | Responded init_result

datatype http_call = RecordCreation string string | InitCall init_request

text \<open>The response: the HTTP status and the fields of the JSON body that the
  properties below speak of (the message, the data and details objects and the copy of
  the segment list are left out). The subscription to segment updates in the segmented
  branch changes no table and is left out as well.\<close>

record analyze_response =
  status :: nat
  success :: "bool option"
  error_text :: "string option"
  out_session_id :: "string option"
  out_course_id :: "string option"
  cached :: "bool option"
  segmented :: "bool option"
  background_processing :: "bool option"

definition errorResponse :: "nat \<Rightarrow> string \<Rightarrow> analyze_response" where
  "errorResponse st msg =
     \<lparr>status = st, success = None, error_text = Some msg, out_session_id = None,
      out_course_id = None, cached = None, segmented = None, background_processing = None\<rparr>"

definition sanitizeYouTubeUrl :: "analyze_env \<Rightarrow> string \<Rightarrow> string" where
  "sanitizeYouTubeUrl env url =
     (case utilsExtractVideoId env url of
        None \<Rightarrow> url
      | Some videoId \<Rightarrow>
          if videoId = [] then url else ''https://www.youtube.com/watch?v='' @ videoId)"

text \<open>The cache query: the courses with the sanitized URL, newest first.\<close>

definition existingCourses :: "world \<Rightarrow> string \<Rightarrow> course_row list" where
  "existingCourses w url =
     rev (sort_key c_created_at (filter (\<lambda>c. c_youtube_url c = url) (courses w)))"

text \<open>The query for one question of a course, and the test made on its result.\<close>

definition hasQuestions :: "analyze_env \<Rightarrow> world \<Rightarrow> course_row \<Rightarrow> bool" where
  "hasQuestions env w c \<longleftrightarrow>
     \<not> questionsError env (c_id c) \<and> list_ex (\<lambda>q. q_course_id q = c_id c) (questions w)"

text \<open>The loop over the existing courses returns at the first one with a question.\<close>

definition cachedCourse :: "analyze_env \<Rightarrow> world \<Rightarrow> string \<Rightarrow> course_row option" where
  "cachedCourse env w url =
     (if cacheError env then None else find (hasQuestions env w) (existingCourses w url))"

definition newCourse :: "analyze_env \<Rightarrow> string \<Rightarrow> string \<Rightarrow> course_row" where
  "newCourse env url new_id =
     \<lparr>c_id = new_id, c_youtube_url = url, c_created_at = createdAt env,
      c_created_by = authUser env, c_published = False,
      c_description = videoDescription env, c_is_segmented = False,
      c_total_segments = None, c_segment_duration = None, c_total_duration = None\<rparr>"

definition progressRow :: "string \<Rightarrow> string \<Rightarrow> string \<Rightarrow> bool \<Rightarrow> progress_row" where
  "progressRow course_id session_id stg bg =
     \<lparr>p_course_id = course_id, p_session_id = session_id, p_stage = stg,
      p_background_processing = bg\<rparr>"

text \<open>The handler up to and with the first progress upsert. \<open>Inl\<close> is a response
  returned before the edge function is called; \<open>Inr\<close> carries on with the course id, the
  session id, the world and the calls made so far.\<close>

definition prepare :: "analyze_env \<Rightarrow> analyze_request \<Rightarrow> world
    \<Rightarrow> (analyze_response \<times> world \<times> http_call list)
       + (string \<times> string \<times> string \<times> world \<times> http_call list)" where
  "prepare env req w =
    (if a_method req \<noteq> ''POST'' then Inl (errorResponse 405 ''Method not allowed'', w, [])
     else if \<not> truthy (a_youtube_url req) \<or> \<not> truthy (a_session_id req)
       then Inl (errorResponse 400
              ''Missing required fields: youtube_url and session_id are required'', w, [])
     else
      (let url = the (a_youtube_url req);
           sid = the (a_session_id req);
           useCache = (case a_useCache req of None \<Rightarrow> True | Some b \<Rightarrow> b)
       in if \<not> isValidYouTubeUrl url
          then Inl (errorResponse 400 ''Invalid YouTube URL format'', w, [])
          else
           (case (if useCache \<and> \<not> truthy (a_course_id req)
                  then cachedCourse env w (sanitizeYouTubeUrl env url) else None) of
              Some existingCourse \<Rightarrow>
                Inl (\<lparr>status = 200, success = Some True, error_text = None,
                      out_session_id = Some sid, out_course_id = Some (c_id existingCourse),
                      cached = Some True, segmented = Some False,
                      background_processing = None\<rparr>, w, [])
            | None \<Rightarrow>
               (if \<not> truthy (a_course_id req) then
                  (case courseInsert env of
                     Inl msg \<Rightarrow> Inl (errorResponse 500 ''Failed to create course record'', w, [])
                   | Inr new_id \<Rightarrow>
                       Inr (new_id, sid, url,
                            upsertProgress (progressRow new_id sid ''initialization'' False)
                              (w\<lparr>courses := courses w
                                    @ [newCourse env (sanitizeYouTubeUrl env url) new_id]\<rparr>),
                            (case authUser env of
                               None \<Rightarrow> []
                             | Some userId \<Rightarrow> [RecordCreation userId new_id])))
                else
                  Inr (the (a_course_id req), sid, url,
                       upsertProgress
                         (progressRow (the (a_course_id req)) sid ''initialization'' False) w,
                       [])))))"

definition initRequest :: "analyze_request \<Rightarrow> string \<Rightarrow> string \<Rightarrow> string \<Rightarrow> init_request" where
  "initRequest req course_id sid url =
     \<lparr>ir_course_id = course_id, ir_youtube_url = url,
      ir_max_questions_per_segment =
        Some (case a_max_questions req of None \<Rightarrow> 5 | Some m \<Rightarrow> m),
      ir_segment_duration =
        Some (case a_segment_duration req of None \<Rightarrow> 300 | Some s \<Rightarrow> s),
      ir_session_id = Some sid\<rparr>"

definition responseOk :: "init_result \<Rightarrow> bool" where
  "responseOk res \<longleftrightarrow> 200 \<le> res_status res \<and> res_status res \<le> 299"

definition updateDescription :: "string \<Rightarrow> string option \<Rightarrow> world \<Rightarrow> world" where
  "updateDescription course_id summary w =
     (if truthy summary
      then w\<lparr>courses := map (\<lambda>c. if c_id c = course_id
                 then c\<lparr>c_description := the summary\<rparr> else c) (courses w)\<rparr>
      else w)"

text \<open>The handler. The edge function is the parameter \<open>edge\<close>: what the call answers
  and the world it leaves.\<close>

definition handler :: "(init_request \<Rightarrow> world \<Rightarrow> fetch_outcome \<times> world) \<Rightarrow> analyze_env
    \<Rightarrow> analyze_request \<Rightarrow> world \<Rightarrow> analyze_response \<times> world \<times> http_call list" where
  "handler edge env req w =
    (case prepare env req w of
       Inl early \<Rightarrow> early
     | Inr (course_id, sid, url, w1, calls) \<Rightarrow>
        (let ireq = initRequest req course_id sid url;
             calls' = calls @ [InitCall ireq]
         in case edge ireq w1 of
              (AbortError, w2) \<Rightarrow>
                (\<lparr>status = 200, success = Some True, error_text = None,
                  out_session_id = Some sid, out_course_id = Some course_id,
                  cached = None, segmented = None, background_processing = Some True\<rparr>,
                 upsertProgress (progressRow course_id sid ''initialization'' True) w2,
                 calls')
            | (OtherError msg, w2) \<Rightarrow>
                ((errorResponse 500 msg)\<lparr>success := Some False\<rparr>,
                 (if truthy (a_session_id req) \<and> truthy (a_course_id req)
                  then upsertProgress
                         (progressRow (the (a_course_id req)) (the (a_session_id req))
                            ''failed'' False) w2
                  else w2),
                 calls')
            | (Responded res, w2) \<Rightarrow>
                if \<not> responseOk res then
                  ((errorResponse 500 ''Processing initialization failed'')
                      \<lparr>success := Some False\<rparr>,
                   upsertProgress (progressRow course_id sid ''failed'' False) w2,
                   calls')
                else if res_segmented res = Some True then
                  (\<lparr>status = 200, success = Some True, error_text = None,
                    out_session_id = Some sid, out_course_id = Some course_id,
                    cached = None, segmented = Some True, background_processing = None\<rparr>,
                   upsertProgress (progressRow course_id sid ''planning'' False) w2,
                   calls')
                else
                  (\<lparr>status = 200, success = Some True, error_text = None,
                    out_session_id = Some sid, out_course_id = Some course_id,
                    cached = Some False, segmented = Some False,
                    background_processing = None\<rparr>,
                   updateDescription course_id (res_video_summary res) w2,
                   calls')))"

text \<open>The edge function as the handler reaches it: a run that does not return is cut
  off by the abort signal.\<close>

definition serveEdge :: "serve_env \<Rightarrow> init_request \<Rightarrow> world \<Rightarrow> fetch_outcome \<times> world" where
  "serveEdge senv ireq w =
     (case serve senv ireq w of
        (None, w') \<Rightarrow> (AbortError, w')
      | (Some res, w') \<Rightarrow> (Responded res, w'))"

definition pipeline :: "analyze_env \<Rightarrow> serve_env \<Rightarrow> analyze_request \<Rightarrow> world
    \<Rightarrow> analyze_response \<times> world \<times> http_call list" where
  "pipeline env senv req w = handler (serveEdge senv) env req w"

text \<open>Whether a call made by the handler is the call of the edge function.\<close>

definition isInitCall :: "http_call \<Rightarrow> bool" where
  "isInitCall c = (case c of InitCall ireq \<Rightarrow> True | RecordCreation u c \<Rightarrow> False)"


section \<open>The course rating endpoint\<close>

text \<open>The \<^verbatim>\<open>rating\<close> field of the JSON body: a finite number, or anything else
  (absent, a string, a boolean, ...).\<close>

datatype json_value = JNum rat | JOther

record rating_request =
  rr_method :: string
  rr_id :: "string option"
  rr_rating :: json_value
  rr_context :: "string option"

record rating_env =
  ratingUser :: "string option"
  insertError :: bool
  statsError :: bool
  deleteError :: bool

record rating_response =
  rs_status :: nat
  rs_success :: bool
  rs_rating :: "int option"

text \<open>\<^verbatim>\<open>!rating || rating < 1 || rating > 5 || !Number.isInteger(rating)\<close>. For a
  value that is not a number \<^verbatim>\<open>Number.isInteger\<close> is false, so the test succeeds
  whatever the comparisons give.\<close>

definition ratingRejected :: "json_value \<Rightarrow> bool" where
  "ratingRejected v =
     (case v of
        JOther \<Rightarrow> True
      | JNum x \<Rightarrow> x = 0 \<or> x < 1 \<or> x > 5 \<or> of_int \<lfloor>x\<rfloor> \<noteq> x)"

definition ratingHandler :: "rating_env \<Rightarrow> rating_request \<Rightarrow> world \<Rightarrow> rating_response \<times> world" where
  "ratingHandler env req w =
    (if \<not> truthy (rr_id req)
     then (\<lparr>rs_status = 400, rs_success = False, rs_rating = None\<rparr>, w)
     else
      (let courseId = the (rr_id req) in
       if rr_method req = ''POST'' then
         (if ratingRejected (rr_rating req)
          then (\<lparr>rs_status = 400, rs_success = False, rs_rating = None\<rparr>, w)
          else
           (case ratingUser env of
              None \<Rightarrow> (\<lparr>rs_status = 401, rs_success = False, rs_rating = None\<rparr>, w)
            | Some userId \<Rightarrow>
               (if length (filter (\<lambda>c. c_id c = courseId) (courses w)) \<noteq> 1
                then (\<lparr>rs_status = 404, rs_success = False, rs_rating = None\<rparr>, w)
                else if insertError env
                then (\<lparr>rs_status = 500, rs_success = False, rs_rating = None\<rparr>, w)
                else
                 (let ratingData =
                        \<lparr>ur_user_id = userId, ur_course_id = courseId,
                         ur_rating = (case rr_rating req of JNum x \<Rightarrow> \<lfloor>x\<rfloor> | JOther \<Rightarrow> 0),
                         ur_context = (case rr_context req of None \<Rightarrow> ''manual''
                                        | Some c \<Rightarrow> c)\<rparr>
                  in (\<lparr>rs_status = 200, rs_success = True,
                       rs_rating = Some (ur_rating ratingData)\<rparr>,
                      w\<lparr>user_course_ratings :=
                          upsertBy ratingKey ratingData (user_course_ratings w)\<rparr>)))))
       else if rr_method req = ''GET'' then
         (if statsError env
          then (\<lparr>rs_status = 500, rs_success = False, rs_rating = None\<rparr>, w)
          else (\<lparr>rs_status = 200, rs_success = True, rs_rating = None\<rparr>, w))
       else if rr_method req = ''DELETE'' then
         (case ratingUser env of
            None \<Rightarrow> (\<lparr>rs_status = 401, rs_success = False, rs_rating = None\<rparr>, w)
          | Some userId \<Rightarrow>
             (if deleteError env
              then (\<lparr>rs_status = 500, rs_success = False, rs_rating = None\<rparr>, w)
              else (\<lparr>rs_status = 200, rs_success = True, rs_rating = None\<rparr>,
                    w\<lparr>user_course_ratings :=
                        filter (\<lambda>r. \<not> (ur_user_id r = userId \<and> ur_course_id r = courseId))
                          (user_course_ratings w)\<rparr>)))
       else (\<lparr>rs_status = 405, rs_success = False, rs_rating = None\<rparr>, w)))"


section \<open>Example inputs\<close>

text \<open>Concrete inputs on which the theorems below are instantiated.\<close>

definition exampleCourse :: course_row where
  "exampleCourse =
     \<lparr>c_id = ''c1'', c_youtube_url = ''https://www.youtube.com/watch?v=abc'',
      c_created_at = 1, c_created_by = None, c_published = False, c_description = ''d'',
      c_is_segmented = False, c_total_segments = None, c_segment_duration = None,
      c_total_duration = None\<rparr>"

definition exampleWorld :: world where
  "exampleWorld =
     \<lparr>courses = [exampleCourse], questions = [], course_segments = [],
      quiz_generation_progress = [], user_course_ratings = [],
      progress_key_enforced = True, orchestrated = []\<rparr>"

definition exampleInit :: init_request where
  "exampleInit =
     \<lparr>ir_course_id = ''c1'', ir_youtube_url = ''https://www.youtube.com/watch?v=abc'',
      ir_max_questions_per_segment = None, ir_segment_duration = None,
      ir_session_id = Some ''s1''\<rparr>"

text \<open>The YouTube API reports 610 seconds; every call succeeds.\<close>

definition exampleServeEnv :: serve_env where
  "exampleServeEnv =
     \<lparr>getVideoDuration = (\<lambda>videoId. Some 610), courseUpdateError = None,
      segmentsError = None, orchestratorOk = True, orchestratorText = []\<rparr>"

text \<open>The YouTube API reports 200 seconds, less than the default segment duration.\<close>

definition exampleShortVideoEnv :: serve_env where
  "exampleShortVideoEnv =
     \<lparr>getVideoDuration = (\<lambda>videoId. Some 200), courseUpdateError = None,
      segmentsError = None, orchestratorOk = True, orchestratorText = []\<rparr>"

text \<open>A stand-in for \<^verbatim>\<open>extractVideoId\<close> of \<^verbatim>\<open>@/utils/youtube\<close>: the two patterns
  in their order, as in the course page's helper of the same name.\<close>

definition exampleUtilsExtract :: "string \<Rightarrow> string option" where
  "exampleUtilsExtract url =
     (case regexMatch shortPatternAt url of
        Some v \<Rightarrow> Some v
      | None \<Rightarrow> regexMatch longPatternAt url)"

definition noQuestionsError :: "string \<Rightarrow> bool" where
  "noQuestionsError course_id = False"

text \<open>No user is signed in, the queries succeed, the new course gets the id \<open>c2\<close>.\<close>

definition exampleAnalyzeEnv :: analyze_env where
  "exampleAnalyzeEnv =
     \<lparr>authUser = None, utilsExtractVideoId = exampleUtilsExtract, cacheError = False,
      questionsError = noQuestionsError, videoDescription = ''d'',
      courseInsert = Inr ''c2'', createdAt = 2\<rparr>"

definition exampleRequest :: analyze_request where
  "exampleRequest =
     \<lparr>a_method = ''POST'', a_course_id = None,
      a_youtube_url = Some ''https://www.youtube.com/watch?v=abc'',
      a_session_id = Some ''s1'', a_max_questions = None, a_segment_duration = None,
      a_useCache = None\<rparr>"

text \<open>The example world with one question stored for its course.\<close>

definition exampleCachedWorld :: world where
  "exampleCachedWorld = exampleWorld\<lparr>questions := [\<lparr>q_id = ''q1'', q_course_id = ''c1''\<rparr>]\<rparr>"

text \<open>An edge function that does not answer within 30 seconds, and one that answers
  with status 500.\<close>

definition timeoutEdge :: "init_request \<Rightarrow> world \<Rightarrow> fetch_outcome \<times> world" where
  "timeoutEdge ireq w = (AbortError, w)"

definition failingEdge :: "init_request \<Rightarrow> world \<Rightarrow> fetch_outcome \<times> world" where
  "failingEdge ireq w = (Responded (failure ''boom''), w)"



text \<open>The YouTube API reports 310 seconds: ten seconds more than the default segment
  duration.\<close>

definition exampleEnv310 :: serve_env where
  "exampleEnv310 =
     \<lparr>getVideoDuration = (\<lambda>videoId. Some 310), courseUpdateError = None,
      segmentsError = None, orchestratorOk = True, orchestratorText = []\<rparr>"

text \<open>The example world with three courses of the same URL: \<open>c3\<close> and \<open>c1\<close> have a
  question, the newest, \<open>c4\<close>, has none.\<close>

definition exampleTwoCachedWorld :: world where
  "exampleTwoCachedWorld =
     exampleWorld\<lparr>courses := [exampleCourse\<lparr>c_id := ''c3'', c_created_at := 5\<rparr>, exampleCourse,
                                exampleCourse\<lparr>c_id := ''c4'', c_created_at := 9\<rparr>],
                   questions := [\<lparr>q_id = ''q1'', q_course_id = ''c1''\<rparr>,
                                 \<lparr>q_id = ''q3'', q_course_id = ''c3''\<rparr>]\<rparr>"

text \<open>A world whose course has a URL that is no YouTube URL, with a question.\<close>

definition exampleOddUrlWorld :: world where
  "exampleOddUrlWorld =
     exampleWorld\<lparr>courses := [exampleCourse\<lparr>c_youtube_url := ''vimeo.com/1''\<rparr>],
                   questions := [\<lparr>q_id = ''q1'', q_course_id = ''c1''\<rparr>]\<rparr>"

section \<open>Properties of the segment planning\<close>

lemma rawLoop_map:
  "rawLoop i n s t acc =
     acc @ map (\<lambda>k. \<lparr>startTime = k * s, endTime = min ((k + 1) * s) t\<rparr>) [i..n - 1]"
proof (induction i n s t acc rule: rawLoop.induct)
  case (1 i n s t acc)
  show ?case
  proof (cases "i < n")
    case True
    then have "[i..n - 1] = i # [i + 1..n - 1]"
      by (simp add: upto_rec1)
    with True "1.IH" show ?thesis
      by (subst rawLoop.simps) simp
  next
    case False
    then show ?thesis
      by (subst rawLoop.simps) simp
  qed
qed

lemma length_rawLoop: "length (rawLoop 0 n s t []) = nat n"
  by (simp add: rawLoop_map)

lemma nth_rawLoop:
  "k < nat n \<Longrightarrow> rawLoop 0 n s t [] ! k =
     \<lparr>startTime = int k * s, endTime = min ((int k + 1) * s) t\<rparr>"
  by (simp add: rawLoop_map)

lemma ceil_bounds:
  assumes "0 < (s::int)"
  shows "(\<lceil>rat_of_int t / rat_of_int s\<rceil> - 1) * s < t" and "t \<le> \<lceil>rat_of_int t / rat_of_int s\<rceil> * s"
proof -
  define q where "q = (- t) div s"
  define r where "r = (- t) mod s"
  have n: "\<lceil>rat_of_int t / rat_of_int s\<rceil> = - q"
    by (simp add: q_def ceiling_divide_eq_div)
  have eq: "- t = q * s + r"
    by (simp add: q_def r_def)
  have r: "0 \<le> r" "r < s"
    using assms by (simp_all add: r_def)
  show "(\<lceil>rat_of_int t / rat_of_int s\<rceil> - 1) * s < t"
    using eq r by (simp add: n algebra_simps)
  show "t \<le> \<lceil>rat_of_int t / rat_of_int s\<rceil> * s"
    using eq r by (simp add: n algebra_simps)
qed

lemma ceil_pos: "0 < (s::int) \<Longrightarrow> 0 < t \<Longrightarrow> 1 \<le> \<lceil>rat_of_int t / rat_of_int s\<rceil>"
  by (simp add: le_ceiling_iff)

lemma ceil_ge2: "0 < (s::int) \<Longrightarrow> s < t \<Longrightarrow> 2 \<le> \<lceil>rat_of_int t / rat_of_int s\<rceil>"
  by (simp add: le_ceiling_iff pos_less_divide_eq)

lemma ceil_le1: "0 < (s::int) \<Longrightarrow> t \<le> s \<Longrightarrow> \<lceil>rat_of_int t / rat_of_int s\<rceil> \<le> 1"
  by (simp add: ceiling_le_iff pos_divide_le_eq)

lemma rawSegments_pos:
  "0 < s \<Longrightarrow> rawSegments t s = Some (rawLoop 0 \<lceil>rat_of_int t / rat_of_int s\<rceil> s t [])"
  by (simp add: rawSegments_def ceilDiv_def)


lemma segmentLoop_eq:
  "segmentLoop cid m i rs (segs, lg, t) =
     (segs @ map (\<lambda>(j, r). mkSegment cid j r) (enumerate i rs),
      lg @ map (expectedQuestions m) rs,
      t + sum_list (map (expectedQuestions m) rs))"
  by (induction rs arbitrary: i segs lg t) simp_all

lemma list_update_last: "xs \<noteq> [] \<Longrightarrow> xs[length xs - 1 := v] = butlast xs @ [v]"
  by (induction xs rule: rev_induct) (simp_all add: list_update_append)

lemma mergeShortLast_merge:
  assumes "2 \<le> length rs" and "endTime (last rs) - startTime (last rs) < 20"
  shows "mergeShortLast tot rs =
           butlast (butlast rs) @ [(rs ! (length rs - 2))\<lparr>endTime := tot\<rparr>]"
proof -
  have ne: "butlast rs \<noteq> []"
    using assms(1) by (cases rs rule: rev_cases) auto
  have nth: "butlast rs ! (length (butlast rs) - 1) = rs ! (length rs - 2)"
    using assms(1) by (simp add: nth_butlast numeral_2_eq_2)
  have "mergeShortLast tot rs =
          (butlast rs)[length (butlast rs) - 1 :=
             (butlast rs ! (length (butlast rs) - 1))\<lparr>endTime := tot\<rparr>]"
    using assms by (simp add: mergeShortLast_def Let_def)
  also have "\<dots> = butlast (butlast rs) @ [(butlast rs ! (length (butlast rs) - 1))\<lparr>endTime := tot\<rparr>]"
    using ne by (rule list_update_last)
  finally show ?thesis by (simp only: nth)
qed

lemma mergeShortLast_keep:
  "\<not> (2 \<le> length rs \<and> endTime (last rs) - startTime (last rs) < 20) \<Longrightarrow>
     mergeShortLast tot rs = rs"
  by (auto simp add: mergeShortLast_def Let_def)

lemma length_mergeShortLast:
  "length (mergeShortLast tot rs) =
     (if 2 \<le> length rs \<and> endTime (last rs) - startTime (last rs) < 20
      then length rs - 1 else length rs)"
  by (auto simp add: mergeShortLast_def Let_def)


lemma totalDuration_pos: "0 < totalDuration vd"
  by (simp add: totalDuration_def split: option.splits)

lemma raw_grid:
  assumes s: "0 < s" and t: "0 < t"
  defines "n \<equiv> \<lceil>rat_of_int t / rat_of_int s\<rceil>"
  defines "R \<equiv> rawLoop 0 n s t []"
  shows "length R = nat n" and "1 \<le> n"
    and "\<And>k. k < length R \<Longrightarrow> startTime (R ! k) = int k * s"
    and "\<And>k. Suc k < length R \<Longrightarrow> endTime (R ! k) = (int k + 1) * s"
    and "endTime (R ! (length R - 1)) = t"
    and "\<And>k. k < length R \<Longrightarrow> int k * s < t"
proof -
  show len: "length R = nat n" by (simp add: R_def length_rawLoop)
  show n1: "1 \<le> n" unfolding n_def using s t by (rule ceil_pos)
  have lo: "(n - 1) * s < t" and hi: "t \<le> n * s"
    unfolding n_def using ceil_bounds [OF s] by blast+
  show st: "\<And>k. k < length R \<Longrightarrow> startTime (R ! k) = int k * s"
    by (simp add: R_def length_rawLoop nth_rawLoop)
  show below: "\<And>k. k < length R \<Longrightarrow> int k * s < t"
  proof -
    fix k assume "k < length R"
    then have "int k \<le> n - 1" using len by simp
    then have "int k * s \<le> (n - 1) * s" using s by (simp add: mult_right_mono)
    with lo show "int k * s < t" by simp
  qed
  show "\<And>k. Suc k < length R \<Longrightarrow> endTime (R ! k) = (int k + 1) * s"
  proof -
    fix k assume k: "Suc k < length R"
    then have "int (Suc k) * s < t" by (rule below)
    then have "(int k + 1) * s < t" by (simp add: algebra_simps)
    moreover have "k < nat n" using k len by simp
    ultimately show "endTime (R ! k) = (int k + 1) * s"
      by (simp add: R_def nth_rawLoop)
  qed
  show "endTime (R ! (length R - 1)) = t"
  proof -
    have k: "length R - 1 < nat n" using len n1 by simp
    have "int (length R - 1) + 1 = n" using len n1 by simp
    with hi have "t \<le> (int (length R - 1) + 1) * s" by (simp only:)
    then show ?thesis using k by (simp add: R_def nth_rawLoop)
  qed
qed


lemma merged_nth:
  assumes "1 \<le> length R" and M_def: "M = mergeShortLast t R"
  shows "1 \<le> length M" and "length M \<le> length R"
    and "\<And>k. k < length M \<Longrightarrow> startTime (M ! k) = startTime (R ! k)"
    and "\<And>k. Suc k < length M \<Longrightarrow> endTime (M ! k) = endTime (R ! k)"
    and "length M < length R \<Longrightarrow> endTime (M ! (length M - 1)) = t"
    and "length M = length R \<Longrightarrow> M = R"
proof -
  consider (keep) "M = R"
    | (merge) "2 \<le> length R" "M = butlast (butlast R) @ [(R ! (length R - 2))\<lparr>endTime := t\<rparr>]"
    unfolding M_def using mergeShortLast_keep [of R t] mergeShortLast_merge [of R t] by blast
  note c = this
  show "1 \<le> length M"
    using assms(1) by (cases rule: c) simp_all
  show "length M \<le> length R"
    by (cases rule: c) simp_all
  show "\<And>k. k < length M \<Longrightarrow> startTime (M ! k) = startTime (R ! k)"
  proof -
    fix k assume k: "k < length M"
    show "startTime (M ! k) = startTime (R ! k)"
    proof (cases rule: c)
      case keep
      then show ?thesis by simp
    next
      case merge
      have len: "length M = length R - 1" using merge by simp
      show ?thesis
      proof (cases "Suc k < length M")
        case True
        then show ?thesis using merge len by (simp add: nth_append nth_butlast)
      next
        case False
        then have "k = length (butlast (butlast R))" using k len by simp
        then have "M ! k = (R ! (length R - 2))\<lparr>endTime := t\<rparr>"
          by (simp only: merge nth_append_length)
        moreover have "k = length R - 2" using k len False by simp
        ultimately show ?thesis by simp
      qed
    qed
  qed
  show "\<And>k. Suc k < length M \<Longrightarrow> endTime (M ! k) = endTime (R ! k)"
  proof -
    fix k assume k: "Suc k < length M"
    show "endTime (M ! k) = endTime (R ! k)"
    proof (cases rule: c)
      case keep
      then show ?thesis by simp
    next
      case merge
      then show ?thesis using k by (simp add: nth_append nth_butlast)
    qed
  qed
  show "length M < length R \<Longrightarrow> endTime (M ! (length M - 1)) = t"
  proof -
    assume lt: "length M < length R"
    show "endTime (M ! (length M - 1)) = t"
    proof (cases rule: c)
      case keep
      then show ?thesis using lt by simp
    next
      case merge
      have "length M - 1 = length (butlast (butlast R))" using merge by simp
      then have "M ! (length M - 1) = (R ! (length R - 2))\<lparr>endTime := t\<rparr>"
        by (simp only: merge(2) nth_append_length)
      then show ?thesis by simp
    qed
  qed
  show "length M = length R \<Longrightarrow> M = R"
  proof -
    assume eq: "length M = length R"
    show "M = R"
    proof (cases rule: c)
      case keep
      then show ?thesis .
    next
      case merge
      then have "length M = length R - 1" by simp
      with eq merge(1) show ?thesis by simp
    qed
  qed
qed

lemma segmented_partition:
  assumes s: "0 < s" and t: "0 < t"
  defines "P \<equiv> mergeShortLast t (rawLoop 0 \<lceil>rat_of_int t / rat_of_int s\<rceil> s t [])"
  shows "P \<noteq> []"
    and "startTime (P ! 0) = 0"
    and "\<And>k. Suc k < length P \<Longrightarrow> endTime (P ! k) = startTime (P ! Suc k)"
    and "\<And>i j. i < j \<Longrightarrow> j < length P \<Longrightarrow> endTime (P ! i) \<le> startTime (P ! j)"
    and "endTime (P ! (length P - 1)) = t"
    and "\<And>k. k < length P \<Longrightarrow> startTime (P ! k) < endTime (P ! k)"
proof -
  define R where "R = rawLoop 0 \<lceil>rat_of_int t / rat_of_int s\<rceil> s t []"
  note g = raw_grid [OF s t, folded R_def]
  have R1: "1 \<le> length R" using g(1,2) by linarith
  have P: "P = mergeShortLast t R" by (simp add: P_def R_def)
  note m = merged_nth [OF R1 P]
  have start: "startTime (P ! k) = int k * s" if "k < length P" for k
    using that m(2) m(3) [of k] g(3) [of k] by simp
  have "end": "endTime (P ! k) = (int k + 1) * s" if "Suc k < length P" for k
    using that m(2) m(4) [of k] g(4) [of k] by simp
  show ne: "P \<noteq> []" using m(1) by auto
  show "startTime (P ! 0) = 0" using ne start [of 0] by simp
  show "endTime (P ! k) = startTime (P ! Suc k)" if "Suc k < length P" for k
    using that start [of "Suc k"] "end" [of k] by (simp add: algebra_simps)
  show "endTime (P ! i) \<le> startTime (P ! j)" if "i < j" "j < length P" for i j
  proof -
    have "int i + 1 \<le> int j" using that by simp
    then have "(int i + 1) * s \<le> int j * s" using s by (simp add: mult_right_mono)
    then show ?thesis using that start [of j] "end" [of i] by simp
  qed
  show last: "endTime (P ! (length P - 1)) = t"
  proof (cases "length P < length R")
    case True
    then show ?thesis by (rule m(5))
  next
    case False
    then have "P = R" using m(2) m(6) by simp
    then show ?thesis using g(5) by simp
  qed
  show "startTime (P ! k) < endTime (P ! k)" if "k < length P" for k
  proof (cases "Suc k < length P")
    case True
    then show ?thesis using start [of k] "end" [of k] s by (simp add: algebra_simps)
  next
    case False
    then have "k = length P - 1" using that by simp
    moreover have "int k * s < t" using that m(2) g(6) [of k] by simp
    ultimately show ?thesis using last start [of k] that by simp
  qed
qed


lemma planned_rows_cases:
  "plannedSegments vd s = None \<or> (\<exists>P. plannedSegments vd s = Some P)"
  by (cases "plannedSegments vd s") simp_all

lemma serve_course_segments:
  assumes "serve env req w = (r, w')"
  shows "course_segments w' = course_segments w \<or>
         (\<exists>videoId P. extractVideoId (ir_youtube_url req) = Some videoId \<and>
            plannedSegments (getVideoDuration env videoId) (segment_duration req) = Some P \<and>
            course_segments w' = course_segments w @
              map (\<lambda>(j, r). mkSegment (ir_course_id req) j r) (enumerate 0 P))"
  using assms
  by (auto simp add: serve_def Let_def plannedSegments_def segmentLoop_eq
        triggerOrchestrator_def initProgressTracking_def insertProgress_def
        updateSegmentCount_def updateCourseSegmentation_def
      split: option.splits if_splits)

lemma serve_ok_segments:
  assumes "serve env req w = (Some res, w')" and "res_status res = 200"
  shows "\<exists>videoId P. extractVideoId (ir_youtube_url req) = Some videoId \<and>
            plannedSegments (getVideoDuration env videoId) (segment_duration req) = Some P \<and>
            res_segments res = map (\<lambda>(j, r). mkSegment (ir_course_id req) j r) (enumerate 0 P) \<and>
            course_segments w' = course_segments w @ res_segments res \<and>
            res_segmented res = Some (shouldSegment (getVideoDuration env videoId) (segment_duration req)) \<and>
            res_video_duration res = Some (totalDuration (getVideoDuration env videoId))"
  using assms
  by (auto simp add: serve_def Let_def plannedSegments_def segmentLoop_eq failure_def
        triggerOrchestrator_def initProgressTracking_def insertProgress_def
        updateSegmentCount_def updateCourseSegmentation_def
      split: option.splits if_splits)


lemma totalDuration_known: "d \<noteq> 0 \<Longrightarrow> totalDuration (Some d) = int d"
  by (simp add: totalDuration_def)

lemma rawLoop_nonpositive: "n \<le> 0 \<Longrightarrow> rawLoop 0 n s t [] = []"
  by (simp add: rawLoop_map)

lemma ceil_nonpositive: "(s::int) < 0 \<Longrightarrow> 0 < t \<Longrightarrow> \<lceil>rat_of_int t / rat_of_int s\<rceil> \<le> 0"
  by (simp add: ceiling_le_iff divide_le_0_iff)

lemma rawSegments_negative: "s < 0 \<Longrightarrow> 0 < t \<Longrightarrow> rawSegments t s = Some []"
  using ceil_nonpositive [of s t]
  by (simp add: rawSegments_def ceilDiv_def rawLoop_nonpositive)

lemma rawSegments_zero: "0 < t \<Longrightarrow> rawSegments t 0 = None"
  by (simp add: rawSegments_def ceilDiv_def)

lemma rawSegments_count:
  assumes s: "0 < s" and t: "0 < t"
  shows "\<exists>raw. rawSegments t s = Some raw \<and> int (length raw) = \<lceil>rat_of_int t / rat_of_int s\<rceil>"
proof -
  define n where "n = \<lceil>rat_of_int t / rat_of_int s\<rceil>"
  have n1: "1 \<le> n" unfolding n_def using s t by (rule ceil_pos)
  have "rawSegments t s = Some (rawLoop 0 n s t [])"
    unfolding n_def using s by (rule rawSegments_pos)
  moreover have "int (length (rawLoop 0 n s t [])) = n"
    using n1 by (simp add: length_rawLoop)
  ultimately show ?thesis unfolding n_def by blast
qed

lemma raw_facts:
  assumes t: "0 < t" and raw: "rawSegments t s = Some raw"
  shows "s \<noteq> 0"
    and "0 < s \<longrightarrow> int (length raw) = \<lceil>rat_of_int t / rat_of_int s\<rceil>"
    and "0 < s \<and> s < t \<longrightarrow> 2 \<le> length raw"
    and "s < 0 \<longrightarrow> raw = []"
proof -
  show "s \<noteq> 0" using raw rawSegments_zero [OF t] by auto
  show c: "0 < s \<longrightarrow> int (length raw) = \<lceil>rat_of_int t / rat_of_int s\<rceil>"
    using raw rawSegments_count [of s t] t by auto
  show "0 < s \<and> s < t \<longrightarrow> 2 \<le> length raw"
  proof
    assume a: "0 < s \<and> s < t"
    then have "2 \<le> \<lceil>rat_of_int t / rat_of_int s\<rceil>" by (simp add: ceil_ge2)
    moreover have "int (length raw) = \<lceil>rat_of_int t / rat_of_int s\<rceil>" using a c by blast
    ultimately show "2 \<le> length raw" by linarith
  qed
  show "s < 0 \<longrightarrow> raw = []" using raw rawSegments_negative [of s t] t by auto
qed


lemma planned_single:
  assumes "\<not> shouldSegment vd s"
  shows "plannedSegments vd s = Some [\<lparr>startTime = 0, endTime = totalDuration vd\<rparr>]"
  using assms by (simp add: plannedSegments_def)

lemma planned_segmented:
  assumes "shouldSegment vd s" and "plannedSegments vd s = Some P"
  shows "\<exists>raw. rawSegments (totalDuration vd) s = Some raw
           \<and> P = mergeShortLast (totalDuration vd) raw"
  using assms by (auto simp add: plannedSegments_def)

lemma mergeShortLast_Nil: "mergeShortLast t [] = []"
  by (simp add: mergeShortLast_def)

text \<open>
  Claim C1 says, for every processing request, that the video is split into multiple
  segments exactly when its known duration exceeds the requested segment duration, with
  the ceiling of the quotient as the number of raw segments. Three runs of \<open>serve\<close>
  show where this fails. A video of 310 seconds with the default 300 is reported as
  segmented and has two raw segments, but the short last one is merged and a single row
  0-310 is created. With a segment duration of -300 a video of 610 seconds is reported
  as segmented with status 200, while there is no raw segment and no row (the ceiling
  is -2). And when the update of the course fails, the run ends with status 500 and
  without a row.
\<close>

theorem C1_split_counterexample:
  "fst (serve exampleEnv310 exampleInit exampleWorld) =
     Some \<lparr>res_status = 200, res_success = True, res_error = None,
           res_segmented = Some True, res_total_segments = Some 1,
           res_segment_duration = Some 300, res_video_duration = Some 310,
           res_segments = [mkSegment ''c1'' 0 \<lparr>startTime = 0, endTime = 310\<rparr>],
           res_video_summary = None\<rparr>
   \<and> course_segments (snd (serve exampleEnv310 exampleInit exampleWorld))
       = [mkSegment ''c1'' 0 \<lparr>startTime = 0, endTime = 310\<rparr>]
   \<and> fst (serve exampleServeEnv (exampleInit\<lparr>ir_segment_duration := Some (- 300)\<rparr>)
          exampleWorld) =
     Some \<lparr>res_status = 200, res_success = True, res_error = None,
           res_segmented = Some True, res_total_segments = Some 0,
           res_segment_duration = Some (- 300), res_video_duration = Some 610,
           res_segments = [], res_video_summary = None\<rparr>
   \<and> rawSegments 610 (- 300) = Some []
   \<and> \<lceil>rat_of_int 610 / rat_of_int (- 300)\<rceil> = - 2
   \<and> fst (serve (exampleServeEnv\<lparr>courseUpdateError := Some ''e''\<rparr>) exampleInit exampleWorld)
       = Some (failure ''Failed to update course: e'')
   \<and> course_segments
        (snd (serve (exampleServeEnv\<lparr>courseUpdateError := Some ''e''\<rparr>) exampleInit
           exampleWorld)) = []"
  by code_simp

text \<open>
  Claim C1, amended. Take a run of \<open>serve\<close> that answers with status 200, and let \<open>s\<close>
  be the segment duration of the request, 300 when the request gives none. If the
  duration lookup returns a number \<open>d\<close> other than 0 (a known duration), the response
  reports the duration \<open>d\<close> and reports the video as segmented exactly when \<open>s < d\<close>.
  When it is not segmented, the one row 0-\<open>d\<close> is created. When it is, the rows
  created are the raw segments of \<open>d\<close> and \<open>s\<close> after the merge of a short last
  segment; \<open>s\<close> is not 0; for a positive \<open>s\<close> the number of raw segments is the
  ceiling of \<open>d / s\<close> and at least two; for a negative \<open>s\<close> there is no raw segment
  and no row. If the lookup returns \<^verbatim>\<open>null\<close> or 0, the duration is taken to be 1800
  seconds, the video is reported as segmented, and the rows are the merged raw segments
  of 1800 and \<open>s\<close> in the same way.
\<close>

theorem C1_split_decision:
  assumes "serve env req w = (Some res, w')" and "res_status res = 200"
    and "s = (case ir_segment_duration req of None \<Rightarrow> 300 | Some v \<Rightarrow> v)"
  shows "\<exists>videoId. extractVideoId (ir_youtube_url req) = Some videoId
     \<and> course_segments w' = course_segments w @ res_segments res
     \<and> (\<forall>d. getVideoDuration env videoId = Some d \<and> d \<noteq> 0 \<longrightarrow>
            res_video_duration res = Some (int d)
          \<and> res_segmented res = Some (s < int d)
          \<and> (\<not> s < int d \<longrightarrow>
                res_segments res
                  = [mkSegment (ir_course_id req) 0 \<lparr>startTime = 0, endTime = int d\<rparr>])
          \<and> (s < int d \<longrightarrow>
                (\<exists>raw. rawSegments (int d) s = Some raw
                   \<and> res_segments res = map (\<lambda>(j, r). mkSegment (ir_course_id req) j r)
                        (enumerate 0 (mergeShortLast (int d) raw))
                   \<and> s \<noteq> 0
                   \<and> (0 < s \<longrightarrow> int (length raw) = \<lceil>rat_of_int (int d) / rat_of_int s\<rceil>
                                \<and> 2 \<le> length raw)
                   \<and> (s < 0 \<longrightarrow> raw = [] \<and> res_segments res = []))))
     \<and> (getVideoDuration env videoId = None \<or> getVideoDuration env videoId = Some 0 \<longrightarrow>
            res_video_duration res = Some 1800
          \<and> res_segmented res = Some True
          \<and> (\<exists>raw. rawSegments 1800 s = Some raw
                 \<and> res_segments res = map (\<lambda>(j, r). mkSegment (ir_course_id req) j r)
                      (enumerate 0 (mergeShortLast 1800 raw))
                 \<and> s \<noteq> 0
                 \<and> (0 < s \<longrightarrow> int (length raw) = \<lceil>1800 / rat_of_int s\<rceil>)
                 \<and> (s < 0 \<longrightarrow> raw = [] \<and> res_segments res = [])))"
proof -
  have s: "segment_duration req = s"
    using assms(3) by (simp add: segment_duration_def)
  from serve_ok_segments [OF assms(1,2)]
  obtain videoId P where v: "extractVideoId (ir_youtube_url req) = Some videoId"
    and P: "plannedSegments (getVideoDuration env videoId) s = Some P"
    and rows: "res_segments res
        = map (\<lambda>(j, r). mkSegment (ir_course_id req) j r) (enumerate 0 P)"
    and cs: "course_segments w' = course_segments w @ res_segments res"
    and flag: "res_segmented res = Some (shouldSegment (getVideoDuration env videoId) s)"
    and dur: "res_video_duration res = Some (totalDuration (getVideoDuration env videoId))"
    unfolding s by blast
  let ?vd = "getVideoDuration env videoId"
  have seg: "\<exists>raw. rawSegments t s = Some raw
                 \<and> res_segments res = map (\<lambda>(j, r). mkSegment (ir_course_id req) j r)
                      (enumerate 0 (mergeShortLast t raw))
                 \<and> s \<noteq> 0
                 \<and> (0 < s \<longrightarrow> int (length raw) = \<lceil>rat_of_int t / rat_of_int s\<rceil>)
                 \<and> (0 < s \<and> s < t \<longrightarrow> 2 \<le> length raw)
                 \<and> (s < 0 \<longrightarrow> raw = [] \<and> res_segments res = [])"
    if sh: "shouldSegment ?vd s" and t: "totalDuration ?vd = t" for t
  proof -
    from planned_segmented [OF sh P] t
    obtain raw where raw: "rawSegments t s = Some raw" and Pm: "P = mergeShortLast t raw"
      by auto
    have pos: "0 < t" using totalDuration_pos [of ?vd] t by simp
    note f = raw_facts [OF pos raw]
    have "s < 0 \<longrightarrow> raw = [] \<and> res_segments res = []"
      using f(4) by (auto simp add: rows Pm mergeShortLast_Nil)
    with raw f(1,2,3) show ?thesis
      by (auto simp add: rows Pm)
  qed
  have known: "res_video_duration res = Some (int d)
          \<and> res_segmented res = Some (s < int d)
          \<and> (\<not> s < int d \<longrightarrow>
                res_segments res
                  = [mkSegment (ir_course_id req) 0 \<lparr>startTime = 0, endTime = int d\<rparr>])
          \<and> (s < int d \<longrightarrow>
                (\<exists>raw. rawSegments (int d) s = Some raw
                   \<and> res_segments res = map (\<lambda>(j, r). mkSegment (ir_course_id req) j r)
                        (enumerate 0 (mergeShortLast (int d) raw))
                   \<and> s \<noteq> 0
                   \<and> (0 < s \<longrightarrow> int (length raw) = \<lceil>rat_of_int (int d) / rat_of_int s\<rceil>
                                \<and> 2 \<le> length raw)
                   \<and> (s < 0 \<longrightarrow> raw = [] \<and> res_segments res = [])))"
    if d: "?vd = Some d" "d \<noteq> 0" for d
  proof -
    have t: "totalDuration ?vd = int d" using d by (simp add: totalDuration_def)
    have sh: "shouldSegment ?vd s = (s < int d)" using d by (simp add: shouldSegment_def)
    have one: "res_segments res
                  = [mkSegment (ir_course_id req) 0 \<lparr>startTime = 0, endTime = int d\<rparr>]"
      if "\<not> s < int d"
    proof -
      have "\<not> shouldSegment ?vd s" using that sh by simp
      from planned_single [OF this] P t
      have "P = [\<lparr>startTime = 0, endTime = int d\<rparr>]" by simp
      then show ?thesis by (simp add: rows)
    qed
    have many: "\<exists>raw. rawSegments (int d) s = Some raw
                   \<and> res_segments res = map (\<lambda>(j, r). mkSegment (ir_course_id req) j r)
                        (enumerate 0 (mergeShortLast (int d) raw))
                   \<and> s \<noteq> 0
                   \<and> (0 < s \<longrightarrow> int (length raw) = \<lceil>rat_of_int (int d) / rat_of_int s\<rceil>
                                \<and> 2 \<le> length raw)
                   \<and> (s < 0 \<longrightarrow> raw = [] \<and> res_segments res = [])"
      if lt: "s < int d"
    proof -
      have "shouldSegment ?vd s" using lt sh by simp
      from seg [OF this t] lt show ?thesis by blast
    qed
    from one many show ?thesis by (simp add: dur flag t sh)
  qed
  have unknown: "res_video_duration res = Some 1800
          \<and> res_segmented res = Some True
          \<and> (\<exists>raw. rawSegments 1800 s = Some raw
                 \<and> res_segments res = map (\<lambda>(j, r). mkSegment (ir_course_id req) j r)
                      (enumerate 0 (mergeShortLast 1800 raw))
                 \<and> s \<noteq> 0
                 \<and> (0 < s \<longrightarrow> int (length raw) = \<lceil>1800 / rat_of_int s\<rceil>)
                 \<and> (s < 0 \<longrightarrow> raw = [] \<and> res_segments res = []))"
    if u: "?vd = None \<or> ?vd = Some 0"
  proof -
    have t: "totalDuration ?vd = 1800" using u by (auto simp add: totalDuration_def)
    have sh: "shouldSegment ?vd s" using u by (auto simp add: shouldSegment_def)
    from seg [OF sh t] show ?thesis by (auto simp add: dur flag t sh)
  qed
  from v cs known unknown show ?thesis by blast
qed

theorem C1_split_decision_witness:
  "res_segmented (the (fst (serve exampleServeEnv exampleInit exampleWorld))) = Some True
   \<and> (\<exists>raw. rawSegments 610 300 = Some raw
          \<and> res_segments (the (fst (serve exampleServeEnv exampleInit exampleWorld)))
               = map (\<lambda>(j, r). mkSegment ''c1'' j r) (enumerate 0 (mergeShortLast 610 raw))
          \<and> int (length raw) = 3)
   \<and> res_segmented (the (fst (serve exampleShortVideoEnv exampleInit exampleWorld))) = Some False
   \<and> res_segments (the (fst (serve exampleShortVideoEnv exampleInit exampleWorld)))
       = [mkSegment ''c1'' 0 \<lparr>startTime = 0, endTime = 200\<rparr>]"
proof -
  have s: "(300::int) = (case ir_segment_duration exampleInit of None \<Rightarrow> 300 | Some v \<Rightarrow> v)"
    by (simp add: exampleInit_def)
  have c: "\<lceil>rat_of_int (int 610) / rat_of_int 300\<rceil> = 3"
    by (simp only: ceiling_divide_eq_div)
  have id: "ir_course_id exampleInit = ''c1''" by (simp add: exampleInit_def)
  have "map_option res_status (fst (serve exampleServeEnv exampleInit exampleWorld)) = Some 200"
    by code_simp
  then obtain res where r1: "fst (serve exampleServeEnv exampleInit exampleWorld) = Some res"
    and ok1: "res_status res = 200"
    by (cases "fst (serve exampleServeEnv exampleInit exampleWorld)") auto
  have run1: "serve exampleServeEnv exampleInit exampleWorld
      = (Some res, snd (serve exampleServeEnv exampleInit exampleWorld))"
    using r1 by (simp add: prod_eq_iff)
  have d1: "getVideoDuration exampleServeEnv v = Some 610" for v
    by (simp add: exampleServeEnv_def)
  from C1_split_decision [OF run1 ok1 s]
  obtain videoId where k1: "\<forall>d. getVideoDuration exampleServeEnv videoId = Some d \<and> d \<noteq> 0 \<longrightarrow>
            res_video_duration res = Some (int d)
          \<and> res_segmented res = Some (300 < int d)
          \<and> (\<not> 300 < int d \<longrightarrow>
                res_segments res
                  = [mkSegment (ir_course_id exampleInit) 0 \<lparr>startTime = 0, endTime = int d\<rparr>])
          \<and> (300 < int d \<longrightarrow>
                (\<exists>raw. rawSegments (int d) 300 = Some raw
                   \<and> res_segments res = map (\<lambda>(j, r). mkSegment (ir_course_id exampleInit) j r)
                        (enumerate 0 (mergeShortLast (int d) raw))
                   \<and> (300::int) \<noteq> 0
                   \<and> ((0::int) < 300 \<longrightarrow> int (length raw) = \<lceil>rat_of_int (int d) / rat_of_int 300\<rceil>
                                \<and> 2 \<le> length raw)
                   \<and> ((300::int) < 0 \<longrightarrow> raw = [] \<and> res_segments res = [])))"
    by blast
  from k1 [rule_format, of 610] d1 [of videoId]
  have a: "res_segmented res = Some True"
    and "\<exists>raw. rawSegments (int 610) 300 = Some raw
                   \<and> res_segments res = map (\<lambda>(j, r). mkSegment (ir_course_id exampleInit) j r)
                        (enumerate 0 (mergeShortLast (int 610) raw))
                   \<and> int (length raw) = \<lceil>rat_of_int (int 610) / rat_of_int 300\<rceil>"
    by auto
  then have b: "\<exists>raw. rawSegments 610 300 = Some raw
          \<and> res_segments res
               = map (\<lambda>(j, r). mkSegment ''c1'' j r) (enumerate 0 (mergeShortLast 610 raw))
          \<and> int (length raw) = 3"
    by (simp only: c id) simp
  have "map_option res_status (fst (serve exampleShortVideoEnv exampleInit exampleWorld)) = Some 200"
    by code_simp
  then obtain res2 where r2: "fst (serve exampleShortVideoEnv exampleInit exampleWorld) = Some res2"
    and ok2: "res_status res2 = 200"
    by (cases "fst (serve exampleShortVideoEnv exampleInit exampleWorld)") auto
  have run2: "serve exampleShortVideoEnv exampleInit exampleWorld
      = (Some res2, snd (serve exampleShortVideoEnv exampleInit exampleWorld))"
    using r2 by (simp add: prod_eq_iff)
  have d2: "getVideoDuration exampleShortVideoEnv v = Some 200" for v
    by (simp add: exampleShortVideoEnv_def)
  from C1_split_decision [OF run2 ok2 s]
  obtain videoId2 where k2: "\<forall>d. getVideoDuration exampleShortVideoEnv videoId2 = Some d \<and> d \<noteq> 0 \<longrightarrow>
            res_video_duration res2 = Some (int d)
          \<and> res_segmented res2 = Some (300 < int d)
          \<and> (\<not> 300 < int d \<longrightarrow>
                res_segments res2
                  = [mkSegment (ir_course_id exampleInit) 0 \<lparr>startTime = 0, endTime = int d\<rparr>])"
    by blast
  from k2 [rule_format, of 200] d2 [of videoId2]
  have e: "res_segmented res2 = Some False"
    "res_segments res2 = [mkSegment ''c1'' 0 \<lparr>startTime = 0, endTime = 200\<rparr>]"
    by (auto simp add: id)
  from a b e show ?thesis by (simp add: r1 r2)
qed



text \<open>
  Claim C3 ends with the final segment count: the ceiling of the quotient or one less,
  for every total duration and segment length. With a segment length of -300 and a
  total of 610 seconds the split yields no raw segment, the count is 0 and the ceiling
  is -2; with a segment length of 0 the split does not return.
\<close>

theorem C3_final_count_counterexample:
  "rawSegments 610 (- 300) = Some []
   \<and> mergeShortLast 610 [] = []
   \<and> \<lceil>rat_of_int 610 / rat_of_int (- 300)\<rceil> = - 2
   \<and> int (length (mergeShortLast 610 [])) \<noteq> \<lceil>rat_of_int 610 / rat_of_int (- 300)\<rceil>
   \<and> int (length (mergeShortLast 610 [])) \<noteq> \<lceil>rat_of_int 610 / rat_of_int (- 300)\<rceil> - 1
   \<and> rawSegments 610 0 = None"
  by code_simp

text \<open>
  Claim C3, amended. For any list of raw segments: with at least two of them and the
  last shorter than 20 seconds, the last is removed and the one before it ends at the
  total duration; otherwise the list is unchanged. For a positive segment duration (and
  a positive total, as \<open>totalDuration\<close> always is) the split yields the ceiling of the
  quotient many raw segments, and the final count is that number, or one less exactly
  when the merge takes place. A negative segment duration yields no segment, and with 0
  the split does not return.
\<close>

theorem C3_short_last_segment_merge:
  "(2 \<le> length raw \<and> endTime (last raw) - startTime (last raw) < 20 \<longrightarrow>
        mergeShortLast tot raw
          = butlast (butlast raw) @ [(raw ! (length raw - 2))\<lparr>endTime := tot\<rparr>])
   \<and> (\<not> (2 \<le> length raw \<and> endTime (last raw) - startTime (last raw) < 20) \<longrightarrow>
        mergeShortLast tot raw = raw)
   \<and> (0 < s \<and> 0 < tot \<longrightarrow>
        (\<exists>raw'. rawSegments tot s = Some raw'
           \<and> int (length raw') = \<lceil>rat_of_int tot / rat_of_int s\<rceil>
           \<and> int (length (mergeShortLast tot raw'))
               = (if 2 \<le> length raw' \<and> endTime (last raw') - startTime (last raw') < 20
                  then \<lceil>rat_of_int tot / rat_of_int s\<rceil> - 1
                  else \<lceil>rat_of_int tot / rat_of_int s\<rceil>)))
   \<and> (0 < s \<and> 0 < tot \<and> rawSegments tot s = Some raw \<longrightarrow>
          int (length (mergeShortLast tot raw)) = \<lceil>rat_of_int tot / rat_of_int s\<rceil>
        \<or> int (length (mergeShortLast tot raw)) = \<lceil>rat_of_int tot / rat_of_int s\<rceil> - 1)
   \<and> (s < 0 \<and> 0 < tot \<longrightarrow> rawSegments tot s = Some [] \<and> mergeShortLast tot [] = [])
   \<and> (s = 0 \<and> 0 < tot \<longrightarrow> rawSegments tot s = None)"
proof -
  have count: "\<exists>raw'. rawSegments tot s = Some raw'
           \<and> int (length raw') = \<lceil>rat_of_int tot / rat_of_int s\<rceil>
           \<and> int (length (mergeShortLast tot raw'))
               = (if 2 \<le> length raw' \<and> endTime (last raw') - startTime (last raw') < 20
                  then \<lceil>rat_of_int tot / rat_of_int s\<rceil> - 1
                  else \<lceil>rat_of_int tot / rat_of_int s\<rceil>)"
    if st: "0 < s \<and> 0 < tot"
  proof -
    from rawSegments_count [of s tot] st
    obtain raw' where r: "rawSegments tot s = Some raw'"
      and l: "int (length raw') = \<lceil>rat_of_int tot / rat_of_int s\<rceil>"
      by blast
    have "int (length (mergeShortLast tot raw'))
               = (if 2 \<le> length raw' \<and> endTime (last raw') - startTime (last raw') < 20
                  then int (length raw') - 1 else int (length raw'))"
      by (simp add: length_mergeShortLast)
    with r l show ?thesis by (simp only:) blast
  qed
  have either: "int (length (mergeShortLast tot raw)) = \<lceil>rat_of_int tot / rat_of_int s\<rceil>
        \<or> int (length (mergeShortLast tot raw)) = \<lceil>rat_of_int tot / rat_of_int s\<rceil> - 1"
    if "0 < s \<and> 0 < tot \<and> rawSegments tot s = Some raw"
  proof -
    from count that obtain raw' where "rawSegments tot s = Some raw'"
      and c: "int (length (mergeShortLast tot raw'))
               = (if 2 \<le> length raw' \<and> endTime (last raw') - startTime (last raw') < 20
                  then \<lceil>rat_of_int tot / rat_of_int s\<rceil> - 1
                  else \<lceil>rat_of_int tot / rat_of_int s\<rceil>)"
      by blast
    with that have "raw' = raw" by simp
    with c show ?thesis by (auto split: if_splits)
  qed
  have neg: "rawSegments tot s = Some [] \<and> mergeShortLast tot [] = []" if "s < 0 \<and> 0 < tot"
    using that by (simp add: rawSegments_negative mergeShortLast_Nil)
  have zero: "rawSegments tot s = None" if "s = 0 \<and> 0 < tot"
    using that by (simp add: rawSegments_zero)
  from count either neg zero mergeShortLast_merge [of raw tot] mergeShortLast_keep [of raw tot]
  show ?thesis by blast
qed

lemma planned_partition:
  assumes s: "0 < s" and P: "plannedSegments vd s = Some P"
  shows "P \<noteq> []"
    and "startTime (P ! 0) = 0"
    and "\<And>k. Suc k < length P \<Longrightarrow> endTime (P ! k) = startTime (P ! Suc k)"
    and "\<And>i j. i < j \<Longrightarrow> j < length P \<Longrightarrow> endTime (P ! i) \<le> startTime (P ! j)"
    and "endTime (P ! (length P - 1)) = totalDuration vd"
    and "\<And>k. k < length P \<Longrightarrow> startTime (P ! k) < endTime (P ! k)"
proof -
  note t = totalDuration_pos [of vd]
  consider (single) "P = [\<lparr>startTime = 0, endTime = totalDuration vd\<rparr>]"
    | (multi) "P = mergeShortLast (totalDuration vd)
          (rawLoop 0 \<lceil>rat_of_int (totalDuration vd) / rat_of_int s\<rceil> s (totalDuration vd) [])"
    using P rawSegments_pos [OF s, of "totalDuration vd"]
    by (auto simp add: plannedSegments_def split: if_splits)
  note c = this
  show "P \<noteq> []"
  proof (cases rule: c)
    case single then show ?thesis by simp
  next
    case multi show ?thesis unfolding multi by (rule segmented_partition(1) [OF s t])
  qed
  show "startTime (P ! 0) = 0"
  proof (cases rule: c)
    case single then show ?thesis by simp
  next
    case multi show ?thesis unfolding multi by (rule segmented_partition(2) [OF s t])
  qed
  show "endTime (P ! k) = startTime (P ! Suc k)" if "Suc k < length P" for k
  proof (cases rule: c)
    case single then show ?thesis using that by simp
  next
    case multi show ?thesis
      using that unfolding multi by (rule segmented_partition(3) [OF s t])
  qed
  show "endTime (P ! i) \<le> startTime (P ! j)" if "i < j" "j < length P" for i j
  proof (cases rule: c)
    case single then show ?thesis using that by simp
  next
    case multi show ?thesis
      using that unfolding multi by (rule segmented_partition(4) [OF s t])
  qed
  show "endTime (P ! (length P - 1)) = totalDuration vd"
  proof (cases rule: c)
    case single then show ?thesis by simp
  next
    case multi show ?thesis unfolding multi by (rule segmented_partition(5) [OF s t])
  qed
  show "startTime (P ! k) < endTime (P ! k)" if "k < length P" for k
  proof (cases rule: c)
    case single then show ?thesis using that t by simp
  next
    case multi show ?thesis
      using that unfolding multi by (rule segmented_partition(6) [OF s t])
  qed
qed

lemma rows_of_plan:
  assumes "segs = map (\<lambda>(j, r). mkSegment cid j r) (enumerate 0 P)"
  shows "length segs = length P"
    and "\<And>k. k < length P \<Longrightarrow> start_time (segs ! k) = startTime (P ! k)"
    and "\<And>k. k < length P \<Longrightarrow> end_time (segs ! k) = endTime (P ! k)"
  using assms by (simp_all add: nth_enumerate_eq mkSegment_def)

lemma rows_partition:
  assumes s: "0 < s" and P: "plannedSegments vd s = Some P"
    and segs: "segs = map (\<lambda>(j, r). mkSegment cid j r) (enumerate 0 P)"
  shows "segs \<noteq> []
     \<and> start_time (hd segs) = 0
     \<and> (\<forall>k. Suc k < length segs \<longrightarrow> end_time (segs ! k) = start_time (segs ! Suc k))
     \<and> (\<forall>i j. i < j \<and> j < length segs \<longrightarrow> end_time (segs ! i) \<le> start_time (segs ! j))
     \<and> (\<forall>k. k < length segs \<longrightarrow> start_time (segs ! k) < end_time (segs ! k))
     \<and> end_time (last segs) = totalDuration vd"
proof -
  note p = planned_partition [OF s P]
  note r = rows_of_plan [OF segs]
  have ne: "segs \<noteq> []" using p(1) r(1) by auto
  have len: "0 < length P" using p(1) by simp
  have "hd segs = segs ! 0" using ne by (simp add: hd_conv_nth)
  then have a: "start_time (hd segs) = 0" using r(2) [OF len] p(2) by simp
  have "last segs = segs ! (length P - 1)" using ne r(1) by (simp add: last_conv_nth)
  moreover have "length P - 1 < length P" using len by simp
  ultimately have b: "end_time (last segs) = totalDuration vd"
    using r(3) [of "length P - 1"] p(5) by simp
  have c: "end_time (segs ! k) = start_time (segs ! Suc k)" if "Suc k < length segs" for k
    using that r(1) r(2) [of "Suc k"] r(3) [of k] p(3) [of k] by simp
  have d: "end_time (segs ! i) \<le> start_time (segs ! j)" if "i < j" "j < length segs" for i j
    using that r(1) r(2) [of j] r(3) [of i] p(4) [of i j] by simp
  have e: "start_time (segs ! k) < end_time (segs ! k)" if "k < length segs" for k
    using that r(1) r(2) [of k] r(3) [of k] p(6) [of k] by simp
  from ne a b c d e show ?thesis by blast
qed

text \<open>
  Claim C2 says that the segments created always tile the timeline. The segment
  duration of the request is not checked: with -300 and a video of 610 seconds the run
  answers with status 200 and reports the video as segmented, but creates no segment
  row, so nothing reaches the end of the video.
\<close>

theorem C2_negative_segment_duration_counterexample:
  "fst (serve exampleServeEnv (exampleInit\<lparr>ir_segment_duration := Some (- 300)\<rparr>) exampleWorld) =
     Some \<lparr>res_status = 200, res_success = True, res_error = None,
           res_segmented = Some True, res_total_segments = Some 0,
           res_segment_duration = Some (- 300), res_video_duration = Some 610,
           res_segments = [], res_video_summary = None\<rparr>
   \<and> course_segments
        (snd (serve exampleServeEnv (exampleInit\<lparr>ir_segment_duration := Some (- 300)\<rparr>)
           exampleWorld)) = []
   \<and> \<not> list_ex (\<lambda>r. end_time r = 610)
        (course_segments
          (snd (serve exampleServeEnv (exampleInit\<lparr>ir_segment_duration := Some (- 300)\<rparr>)
             exampleWorld)))"
  by code_simp

text \<open>
  Claim C2, amended. For a positive segment duration, the rows a run of \<open>serve\<close> adds to
  \<^verbatim>\<open>course_segments\<close> are none (the run failed before the insert) or they tile
  the timeline: the first starts at 0, each ends where the next starts, an earlier one
  ends no later than a later one starts, each has positive length, and the last ends at
  the total duration. A run that answers with status 200 has added such rows and reports
  them. This covers the single segment, the raw segments and the merged ones.
\<close>

theorem C2_segments_partition_timeline:
  assumes "0 < segment_duration req" and "serve env req w = (r, w')"
  shows "\<exists>segs. course_segments w' = course_segments w @ segs
     \<and> (segs = [] \<or>
        (\<exists>videoId. extractVideoId (ir_youtube_url req) = Some videoId
         \<and> start_time (hd segs) = 0
         \<and> (\<forall>k. Suc k < length segs \<longrightarrow> end_time (segs ! k) = start_time (segs ! Suc k))
         \<and> (\<forall>i j. i < j \<and> j < length segs \<longrightarrow> end_time (segs ! i) \<le> start_time (segs ! j))
         \<and> (\<forall>k. k < length segs \<longrightarrow> start_time (segs ! k) < end_time (segs ! k))
         \<and> end_time (last segs) = totalDuration (getVideoDuration env videoId)))
     \<and> (\<forall>res. r = Some res \<and> res_status res = 200 \<longrightarrow> segs \<noteq> [] \<and> res_segments res = segs)"
proof -
  let ?part = "\<lambda>segs. segs = [] \<or>
        (\<exists>videoId. extractVideoId (ir_youtube_url req) = Some videoId
         \<and> start_time (hd segs) = 0
         \<and> (\<forall>k. Suc k < length segs \<longrightarrow> end_time (segs ! k) = start_time (segs ! Suc k))
         \<and> (\<forall>i j. i < j \<and> j < length segs \<longrightarrow> end_time (segs ! i) \<le> start_time (segs ! j))
         \<and> (\<forall>k. k < length segs \<longrightarrow> start_time (segs ! k) < end_time (segs ! k))
         \<and> end_time (last segs) = totalDuration (getVideoDuration env videoId))"
  show ?thesis
  proof (cases "\<exists>res. r = Some res \<and> res_status res = 200")
    case True
    then obtain res where res: "r = Some res" "res_status res = 200" by blast
    from serve_ok_segments [OF assms(2) [unfolded res(1)] res(2)]
    obtain videoId P where v: "extractVideoId (ir_youtube_url req) = Some videoId"
      and P: "plannedSegments (getVideoDuration env videoId) (segment_duration req) = Some P"
      and rows: "res_segments res
          = map (\<lambda>(j, r). mkSegment (ir_course_id req) j r) (enumerate 0 P)"
      and cs: "course_segments w' = course_segments w @ res_segments res"
      by blast
    note rp = rows_partition [OF assms(1) P rows]
    have 1: "?part (res_segments res)" using rp v by blast
    have 2: "\<forall>res'. r = Some res' \<and> res_status res' = 200 \<longrightarrow>
               res_segments res \<noteq> [] \<and> res_segments res' = res_segments res"
      using rp res(1) by auto
    from cs 1 2 show ?thesis by blast
  next
    case False
    from serve_course_segments [OF assms(2)]
    consider "course_segments w' = course_segments w"
      | videoId P where "extractVideoId (ir_youtube_url req) = Some videoId"
          "plannedSegments (getVideoDuration env videoId) (segment_duration req) = Some P"
          "course_segments w' = course_segments w @
                map (\<lambda>(j, r). mkSegment (ir_course_id req) j r) (enumerate 0 P)"
      by blast
    then show ?thesis
    proof cases
      case 1
      then have "course_segments w' = course_segments w @ []" by simp
      moreover have "?part []" by simp
      ultimately show ?thesis using False by blast
    next
      case 2
      define segs where "segs = map (\<lambda>(j, r). mkSegment (ir_course_id req) j r) (enumerate 0 P)"
      note rp = rows_partition [OF assms(1) 2(2) segs_def]
      have "?part segs" using rp 2(1) by blast
      moreover have "course_segments w' = course_segments w @ segs"
        using 2(3) by (simp only: segs_def)
      ultimately show ?thesis using False by blast
    qed
  qed
qed


theorem C2_segments_partition_timeline_witness:
  "0 < segment_duration exampleInit
   \<and> (\<exists>segs. course_segments (snd (serve exampleServeEnv exampleInit exampleWorld))
                = course_segments exampleWorld @ segs
          \<and> segs \<noteq> [] \<and> start_time (hd segs) = 0 \<and> end_time (last segs) = 610)"
proof -
  have h: "0 < segment_duration exampleInit"
    by (simp add: segment_duration_def exampleInit_def)
  have run: "serve exampleServeEnv exampleInit exampleWorld
      = (fst (serve exampleServeEnv exampleInit exampleWorld),
         snd (serve exampleServeEnv exampleInit exampleWorld))"
    by simp
  have "map_option res_status (fst (serve exampleServeEnv exampleInit exampleWorld)) = Some 200"
    by code_simp
  then obtain res where ok: "fst (serve exampleServeEnv exampleInit exampleWorld) = Some res"
    "res_status res = 200"
    by (cases "fst (serve exampleServeEnv exampleInit exampleWorld)") auto
  have dur: "totalDuration (getVideoDuration exampleServeEnv v) = 610" for v
    by (simp add: exampleServeEnv_def totalDuration_def)
  from C2_segments_partition_timeline [OF h run]
  obtain segs where a: "course_segments (snd (serve exampleServeEnv exampleInit exampleWorld))
                = course_segments exampleWorld @ segs"
    and b: "segs = [] \<or> (\<exists>videoId. extractVideoId (ir_youtube_url exampleInit) = Some videoId
         \<and> start_time (hd segs) = 0
         \<and> (\<forall>k. Suc k < length segs \<longrightarrow> end_time (segs ! k) = start_time (segs ! Suc k))
         \<and> (\<forall>i j. i < j \<and> j < length segs \<longrightarrow> end_time (segs ! i) \<le> start_time (segs ! j))
         \<and> (\<forall>k. k < length segs \<longrightarrow> start_time (segs ! k) < end_time (segs ! k))
         \<and> end_time (last segs) = totalDuration (getVideoDuration exampleServeEnv videoId))"
    and c: "\<forall>res. fst (serve exampleServeEnv exampleInit exampleWorld) = Some res
              \<and> res_status res = 200 \<longrightarrow> segs \<noteq> [] \<and> res_segments res = segs"
    by blast
  from c ok have ne: "segs \<noteq> []" by blast
  with b have "start_time (hd segs) = 0" and "end_time (last segs) = 610"
    by (auto simp add: dur)
  with a ne h show ?thesis by blast
qed

theorem C3_short_last_segment_merge_witness:
  "rawSegments 610 300 = Some [\<lparr>startTime = 0, endTime = 300\<rparr>,
       \<lparr>startTime = 300, endTime = 600\<rparr>, \<lparr>startTime = 600, endTime = 610\<rparr>]
   \<and> mergeShortLast 610 [\<lparr>startTime = 0, endTime = 300\<rparr>,
       \<lparr>startTime = 300, endTime = 600\<rparr>, \<lparr>startTime = 600, endTime = 610\<rparr>]
      = [\<lparr>startTime = 0, endTime = 300\<rparr>, \<lparr>startTime = 300, endTime = 610\<rparr>]
   \<and> rawSegments 700 300 = Some [\<lparr>startTime = 0, endTime = 300\<rparr>,
       \<lparr>startTime = 300, endTime = 600\<rparr>, \<lparr>startTime = 600, endTime = 700\<rparr>]
   \<and> mergeShortLast 700 [\<lparr>startTime = 0, endTime = 300\<rparr>,
       \<lparr>startTime = 300, endTime = 600\<rparr>, \<lparr>startTime = 600, endTime = 700\<rparr>]
      = [\<lparr>startTime = 0, endTime = 300\<rparr>,
       \<lparr>startTime = 300, endTime = 600\<rparr>, \<lparr>startTime = 600, endTime = 700\<rparr>]
   \<and> (\<exists>raw'. rawSegments 610 300 = Some raw' \<and> int (length raw') = 3
          \<and> int (length (mergeShortLast 610 raw')) = 2)
   \<and> rawSegments 610 (- 300) = Some []
   \<and> rawSegments 610 0 = None"
proof -
  let ?r1 = "[\<lparr>startTime = 0, endTime = 300\<rparr>,
       \<lparr>startTime = 300, endTime = 600\<rparr>, \<lparr>startTime = 600, endTime = 610\<rparr>]"
  let ?r2 = "[\<lparr>startTime = 0, endTime = 300\<rparr>,
       \<lparr>startTime = 300, endTime = 600\<rparr>, \<lparr>startTime = 600, endTime = 700\<rparr>]"
  have r1: "rawSegments 610 300 = Some ?r1" by code_simp
  have r2: "rawSegments 700 300 = Some ?r2" by code_simp
  have c: "\<lceil>rat_of_int 610 / rat_of_int 300\<rceil> = 3"
    by (simp only: ceiling_divide_eq_div)
  note t1 = C3_short_last_segment_merge [where raw = ?r1 and tot = 610 and s = 300]
  note t2 = C3_short_last_segment_merge [where raw = ?r2 and tot = 700 and s = 300]
  note t3 = C3_short_last_segment_merge [where raw = "[]" and tot = 610 and s = "- 300"]
  note t4 = C3_short_last_segment_merge [where raw = "[]" and tot = 610 and s = 0]
  have m1: "mergeShortLast 610 ?r1
      = [\<lparr>startTime = 0, endTime = 300\<rparr>, \<lparr>startTime = 300, endTime = 610\<rparr>]"
    using t1 by simp
  have m2: "mergeShortLast 700 ?r2 = ?r2"
    using t2 by simp
  have "\<exists>raw'. rawSegments 610 300 = Some raw'
           \<and> int (length raw') = \<lceil>rat_of_int 610 / rat_of_int 300\<rceil>
           \<and> int (length (mergeShortLast 610 raw'))
               = (if 2 \<le> length raw' \<and> endTime (last raw') - startTime (last raw') < 20
                  then \<lceil>rat_of_int 610 / rat_of_int 300\<rceil> - 1
                  else \<lceil>rat_of_int 610 / rat_of_int 300\<rceil>)"
    using t1 by simp
  then have k: "\<exists>raw'. rawSegments 610 300 = Some raw' \<and> int (length raw') = 3
          \<and> int (length (mergeShortLast 610 raw')) = 2"
    unfolding c using r1 by auto
  have n: "rawSegments 610 (- 300) = Some []" using t3 by simp
  have z: "rawSegments 610 0 = None" using t4 by simp
  from r1 r2 m1 m2 k n z show ?thesis by blast
qed


section \<open>Properties of the analyze endpoint\<close>

lemma upsertBy_keys:
  "set (map key (upsertBy key row tbl)) = insert (key row) (set (map key tbl))"
  by (auto simp add: upsertBy_def list_ex_iff image_iff)

lemma upsertBy_map_key:
  "list_ex (\<lambda>r. key r = key row) tbl \<Longrightarrow> map key (upsertBy key row tbl) = map key tbl"
  by (simp add: upsertBy_def)

lemma upsertBy_distinct:
  "distinct (map key tbl) \<Longrightarrow> distinct (map key (upsertBy key row tbl))"
proof (cases "list_ex (\<lambda>r. key r = key row) tbl")
  case True
  assume "distinct (map key tbl)"
  then show ?thesis using True by (simp add: upsertBy_map_key)
next
  case False
  assume "distinct (map key tbl)"
  then show ?thesis using False by (auto simp add: upsertBy_def list_ex_iff)
qed

lemma upsertBy_present: "\<exists>r \<in> set (upsertBy key row tbl). key r = key row"
  by (auto simp add: upsertBy_def list_ex_iff)

lemma upsertBy_same_key:
  "r \<in> set (upsertBy key row tbl) \<Longrightarrow> key r = key row \<Longrightarrow> r = row"
  by (auto simp add: upsertBy_def list_ex_iff split: if_splits)





lemma upsertProgress_rows:
  "quiz_generation_progress (upsertProgress row w)
     = upsertBy progressKey row (quiz_generation_progress w)"
  by (simp add: upsertProgress_def)

lemma progressKey_row [simp]: "progressKey (progressRow c s stg bg) = (c, s)"
  by (simp add: progressKey_def progressRow_def)

lemma p_stage_row [simp]: "p_stage (progressRow c s stg bg) = stg"
  by (simp add: progressRow_def)

lemma upsertProgress_stage:
  "(\<exists>r \<in> set (quiz_generation_progress (upsertProgress (progressRow c s stg bg) w)).
       progressKey r = (c, s))
   \<and> (\<forall>r \<in> set (quiz_generation_progress (upsertProgress (progressRow c s stg bg) w)).
       progressKey r = (c, s) \<longrightarrow> p_stage r = stg)"
proof (intro conjI ballI impI)
  show "\<exists>r \<in> set (quiz_generation_progress (upsertProgress (progressRow c s stg bg) w)).
       progressKey r = (c, s)"
    using upsertBy_present [of progressKey "progressRow c s stg bg" "quiz_generation_progress w"]
    by (simp add: upsertProgress_rows)
next
  fix r
  assume "r \<in> set (quiz_generation_progress (upsertProgress (progressRow c s stg bg) w))"
    and "progressKey r = (c, s)"
  then have "r = progressRow c s stg bg"
    using upsertBy_same_key [of r progressKey "progressRow c s stg bg"
        "quiz_generation_progress w"]
    by (simp add: upsertProgress_rows)
  then show "p_stage r = stg" by simp
qed

lemma upsertProgress_distinct:
  "distinct (map progressKey (quiz_generation_progress w)) \<Longrightarrow>
     distinct (map progressKey (quiz_generation_progress (upsertProgress row w)))"
  by (simp add: upsertProgress_rows upsertBy_distinct)

lemma prepare_progress_rows:
  assumes "prepare env req w = Inr (course_id, sid, url, w1, calls)"
  shows "quiz_generation_progress w1
           = upsertBy progressKey (progressRow course_id sid ''initialization'' False)
               (quiz_generation_progress w)"
  using assms
  by (auto simp add: prepare_def Let_def upsertProgress_def
      split: if_splits option.splits sum.splits)

lemma prepare_progress_distinct:
  assumes "distinct (map progressKey (quiz_generation_progress w))"
    and "prepare env req w = Inr (course_id, sid, url, w1, calls)"
  shows "distinct (map progressKey (quiz_generation_progress w1))"
  using assms(1) by (simp add: prepare_progress_rows [OF assms(2)] upsertBy_distinct)

lemma handler_progress_distinct:
  assumes d: "distinct (map progressKey (quiz_generation_progress w))"
    and e: "\<And>ireq v. distinct (map progressKey (quiz_generation_progress v)) \<Longrightarrow>
              distinct (map progressKey (quiz_generation_progress (snd (edge ireq v))))"
  shows "distinct (map progressKey (quiz_generation_progress (fst (snd (handler edge env req w)))))"
proof (cases "prepare env req w")
  case (Inl early)
  then have "quiz_generation_progress (fst (snd early)) = quiz_generation_progress w"
    by (auto simp add: prepare_def Let_def split: if_splits option.splits sum.splits)
  then show ?thesis using d Inl by (simp add: handler_def)
next
  case (Inr go)
  obtain course_id sid url w1 calls where go: "go = (course_id, sid, url, w1, calls)"
    by (cases go) auto
  have d1: "distinct (map progressKey (quiz_generation_progress w1))"
    using prepare_progress_distinct [OF d Inr [unfolded go]] .
  obtain out w2 where o: "edge (initRequest req course_id sid url) w1 = (out, w2)"
    by (cases "edge (initRequest req course_id sid url) w1") auto
  have d2: "distinct (map progressKey (quiz_generation_progress w2))"
    using e [OF d1, of "initRequest req course_id sid url"] o by simp
  show ?thesis
    using Inr go o d2 upsertProgress_distinct [OF d2]
    by (cases out) (simp_all add: handler_def Let_def updateDescription_def)
qed

lemma example_prepare:
  "prepare exampleAnalyzeEnv exampleRequest exampleWorld =
     Inr (''c2'', ''s1'', ''https://www.youtube.com/watch?v=abc'',
          upsertProgress (progressRow ''c2'' ''s1'' ''initialization'' False)
            (exampleWorld\<lparr>courses := courses exampleWorld
               @ [newCourse exampleAnalyzeEnv ''https://www.youtube.com/watch?v=abc'' ''c2'']\<rparr>),
          [])"
  by code_simp

text \<open>
  Claim C5. Let the handler reach the call of the edge function (\<open>prepare\<close> does not
  return a response). If the call is aborted by the 30 second timer, the handler answers
  with status 200, \<^verbatim>\<open>success: true\<close> and \<^verbatim>\<open>background_processing: true\<close>, and
  upserts the progress row of the course and session with stage \<^verbatim>\<open>initialization\<close>,
  so that no row of that key has stage \<^verbatim>\<open>failed\<close>. If the call answers with a
  status that is not OK, the handler upserts the row with stage \<^verbatim>\<open>failed\<close> and
  answers with status 500.
\<close>

theorem C5_timeout_and_failed_initialization:
  assumes "prepare env req w = Inr (course_id, sid, url, w1, calls)"
  shows "(edge (initRequest req course_id sid url) w1 = (AbortError, w2) \<longrightarrow>
           (case handler edge env req w of (resp, w', made) \<Rightarrow>
              status resp = 200 \<and> success resp = Some True
              \<and> background_processing resp = Some True
              \<and> w' = upsertProgress (progressRow course_id sid ''initialization'' True) w2
              \<and> (\<exists>r \<in> set (quiz_generation_progress w'). progressKey r = (course_id, sid))
              \<and> (\<forall>r \<in> set (quiz_generation_progress w').
                    progressKey r = (course_id, sid) \<longrightarrow>
                      p_stage r = ''initialization'' \<and> p_stage r \<noteq> ''failed'')))
     \<and> (edge (initRequest req course_id sid url) w1 = (Responded res, w2)
          \<and> \<not> responseOk res \<longrightarrow>
           (case handler edge env req w of (resp, w', made) \<Rightarrow>
              status resp = 500 \<and> success resp = Some False
              \<and> w' = upsertProgress (progressRow course_id sid ''failed'' False) w2
              \<and> (\<exists>r \<in> set (quiz_generation_progress w'). progressKey r = (course_id, sid))
              \<and> (\<forall>r \<in> set (quiz_generation_progress w').
                    progressKey r = (course_id, sid) \<longrightarrow> p_stage r = ''failed'')))"
proof -
  have a: "handler edge env req w =
      (\<lparr>status = 200, success = Some True, error_text = None,
        out_session_id = Some sid, out_course_id = Some course_id,
        cached = None, segmented = None, background_processing = Some True\<rparr>,
       upsertProgress (progressRow course_id sid ''initialization'' True) w2,
       calls @ [InitCall (initRequest req course_id sid url)])"
    if "edge (initRequest req course_id sid url) w1 = (AbortError, w2)"
    using assms that by (simp add: handler_def Let_def)
  have b: "handler edge env req w =
      ((errorResponse 500 ''Processing initialization failed'')\<lparr>success := Some False\<rparr>,
       upsertProgress (progressRow course_id sid ''failed'' False) w2,
       calls @ [InitCall (initRequest req course_id sid url)])"
    if "edge (initRequest req course_id sid url) w1 = (Responded res, w2)" "\<not> responseOk res"
    using assms that by (simp add: handler_def Let_def)
  note st1 = upsertProgress_stage [of course_id sid "''initialization''" True w2]
  note st2 = upsertProgress_stage [of course_id sid "''failed''" False w2]
  show ?thesis
  proof (intro conjI impI)
    assume e: "edge (initRequest req course_id sid url) w1 = (AbortError, w2)"
    show "case handler edge env req w of (resp, w', made) \<Rightarrow>
              status resp = 200 \<and> success resp = Some True
              \<and> background_processing resp = Some True
              \<and> w' = upsertProgress (progressRow course_id sid ''initialization'' True) w2
              \<and> (\<exists>r \<in> set (quiz_generation_progress w'). progressKey r = (course_id, sid))
              \<and> (\<forall>r \<in> set (quiz_generation_progress w').
                    progressKey r = (course_id, sid) \<longrightarrow>
                      p_stage r = ''initialization'' \<and> p_stage r \<noteq> ''failed'')"
      using st1 by (simp add: a [OF e])
  next
    assume e: "edge (initRequest req course_id sid url) w1 = (Responded res, w2)
          \<and> \<not> responseOk res"
    show "case handler edge env req w of (resp, w', made) \<Rightarrow>
              status resp = 500 \<and> success resp = Some False
              \<and> w' = upsertProgress (progressRow course_id sid ''failed'' False) w2
              \<and> (\<exists>r \<in> set (quiz_generation_progress w'). progressKey r = (course_id, sid))
              \<and> (\<forall>r \<in> set (quiz_generation_progress w').
                    progressKey r = (course_id, sid) \<longrightarrow> p_stage r = ''failed'')"
      using st2 e by (simp add: b errorResponse_def)
  qed
qed

theorem C5_timeout_and_failed_initialization_witness:
  "status (fst (handler timeoutEdge exampleAnalyzeEnv exampleRequest exampleWorld)) = 200
   \<and> success (fst (handler timeoutEdge exampleAnalyzeEnv exampleRequest exampleWorld)) = Some True
   \<and> background_processing
        (fst (handler timeoutEdge exampleAnalyzeEnv exampleRequest exampleWorld)) = Some True
   \<and> map p_stage (quiz_generation_progress
        (fst (snd (handler timeoutEdge exampleAnalyzeEnv exampleRequest exampleWorld))))
       = [''initialization'']
   \<and> status (fst (handler failingEdge exampleAnalyzeEnv exampleRequest exampleWorld)) = 500
   \<and> map p_stage (quiz_generation_progress
        (fst (snd (handler failingEdge exampleAnalyzeEnv exampleRequest exampleWorld))))
       = [''failed'']"
proof -
  let ?url = "''https://www.youtube.com/watch?v=abc''"
  let ?w1 = "upsertProgress (progressRow ''c2'' ''s1'' ''initialization'' False)
            (exampleWorld\<lparr>courses := courses exampleWorld
               @ [newCourse exampleAnalyzeEnv ?url ''c2'']\<rparr>)"
  have t: "timeoutEdge (initRequest exampleRequest ''c2'' ''s1'' ?url) ?w1 = (AbortError, ?w1)"
    by (simp add: timeoutEdge_def)
  have f: "failingEdge (initRequest exampleRequest ''c2'' ''s1'' ?url) ?w1
             = (Responded (failure ''boom''), ?w1)
           \<and> \<not> responseOk (failure ''boom'')"
    by (simp add: failingEdge_def responseOk_def failure_def)
  have s1: "map p_stage (quiz_generation_progress
              (upsertProgress (progressRow ''c2'' ''s1'' ''initialization'' True) ?w1))
            = [''initialization'']"
    by code_simp
  have s2: "map p_stage (quiz_generation_progress
              (upsertProgress (progressRow ''c2'' ''s1'' ''failed'' False) ?w1))
            = [''failed'']"
    by code_simp
  note th1 = C5_timeout_and_failed_initialization
      [where edge = timeoutEdge and ?w2.0 = ?w1, OF example_prepare]
  note th2 = C5_timeout_and_failed_initialization
      [where edge = failingEdge and ?w2.0 = ?w1 and res = "failure ''boom''", OF example_prepare]
  note a = th1 [THEN conjunct1, THEN mp, OF t]
  note b = th2 [THEN conjunct2, THEN mp, OF f]
  from a have a': "status (fst (handler timeoutEdge exampleAnalyzeEnv exampleRequest exampleWorld)) = 200"
    "success (fst (handler timeoutEdge exampleAnalyzeEnv exampleRequest exampleWorld)) = Some True"
    "background_processing
        (fst (handler timeoutEdge exampleAnalyzeEnv exampleRequest exampleWorld)) = Some True"
    "fst (snd (handler timeoutEdge exampleAnalyzeEnv exampleRequest exampleWorld))
       = upsertProgress (progressRow ''c2'' ''s1'' ''initialization'' True) ?w1"
    by (simp_all add: case_prod_beta)
  from b have b': "status (fst (handler failingEdge exampleAnalyzeEnv exampleRequest exampleWorld)) = 500"
    "fst (snd (handler failingEdge exampleAnalyzeEnv exampleRequest exampleWorld))
       = upsertProgress (progressRow ''c2'' ''s1'' ''failed'' False) ?w1"
    by (simp_all add: case_prod_beta)
  show ?thesis
    by (simp only: a' b' s1 s2)
qed

lemma prepare_calls:
  assumes "prepare env req w = Inr (course_id, sid, url, w1, calls)"
  shows "filter isInitCall calls = []"
  using assms
  by (auto simp add: prepare_def Let_def isInitCall_def
      split: if_splits option.splits sum.splits)

text \<open>
  Claim C6 says that a timed-out call of the edge function is retried. The handler has
  no retry: on the example request, with an edge function that times out, it makes the
  call once.
\<close>

theorem C6_retry_counterexample:
  "fst (timeoutEdge
        (initRequest exampleRequest ''c2'' ''s1'' ''https://www.youtube.com/watch?v=abc'')
        exampleWorld) = AbortError
   \<and> length (filter isInitCall
        (snd (snd (handler timeoutEdge exampleAnalyzeEnv exampleRequest exampleWorld)))) = 1
   \<and> \<not> 2 \<le> length (filter isInitCall
        (snd (snd (handler timeoutEdge exampleAnalyzeEnv exampleRequest exampleWorld))))"
  by code_simp

text \<open>
  Claim C6, amended. When the call of the edge function times out, the handler does not
  call again: the calls it has made are those made before, none of them a call of the
  edge function, and that one call. It upserts the progress row with stage
  \<^verbatim>\<open>initialization\<close> and answers with status 200 and
  \<^verbatim>\<open>background_processing: true\<close>.
\<close>

theorem C6_timeout_is_not_retried:
  assumes "prepare env req w = Inr (course_id, sid, url, w1, calls)"
    and "edge (initRequest req course_id sid url) w1 = (AbortError, w2)"
  shows "snd (snd (handler edge env req w))
           = calls @ [InitCall (initRequest req course_id sid url)]
       \<and> length (filter isInitCall (snd (snd (handler edge env req w)))) = 1
       \<and> status (fst (handler edge env req w)) = 200
       \<and> background_processing (fst (handler edge env req w)) = Some True
       \<and> fst (snd (handler edge env req w))
           = upsertProgress (progressRow course_id sid ''initialization'' True) w2
       \<and> (\<exists>r \<in> set (quiz_generation_progress (fst (snd (handler edge env req w)))).
             progressKey r = (course_id, sid) \<and> p_stage r = ''initialization'')"
proof -
  have h: "handler edge env req w =
      (\<lparr>status = 200, success = Some True, error_text = None,
        out_session_id = Some sid, out_course_id = Some course_id,
        cached = None, segmented = None, background_processing = Some True\<rparr>,
       upsertProgress (progressRow course_id sid ''initialization'' True) w2,
       calls @ [InitCall (initRequest req course_id sid url)])"
    using assms by (simp add: handler_def Let_def)
  note st = upsertProgress_stage [of course_id sid "''initialization''" True w2]
  have "\<exists>r \<in> set (quiz_generation_progress
            (upsertProgress (progressRow course_id sid ''initialization'' True) w2)).
             progressKey r = (course_id, sid) \<and> p_stage r = ''initialization''"
    using st by blast
  then show ?thesis
    using prepare_calls [OF assms(1)] by (simp add: h isInitCall_def)
qed

theorem C6_timeout_is_not_retried_witness:
  "snd (snd (handler timeoutEdge exampleAnalyzeEnv exampleRequest exampleWorld))
     = [InitCall (initRequest exampleRequest ''c2'' ''s1''
                    ''https://www.youtube.com/watch?v=abc'')]
   \<and> status (fst (handler timeoutEdge exampleAnalyzeEnv exampleRequest exampleWorld)) = 200"
proof -
  let ?url = "''https://www.youtube.com/watch?v=abc''"
  let ?w1 = "upsertProgress (progressRow ''c2'' ''s1'' ''initialization'' False)
            (exampleWorld\<lparr>courses := courses exampleWorld
               @ [newCourse exampleAnalyzeEnv ?url ''c2'']\<rparr>)"
  have t: "timeoutEdge (initRequest exampleRequest ''c2'' ''s1'' ?url) ?w1 = (AbortError, ?w1)"
    by (simp add: timeoutEdge_def)
  from C6_timeout_is_not_retried [where edge = timeoutEdge, OF example_prepare t]
  show ?thesis by simp
qed

text \<open>
  Claim C7 says that every write of the progress table is an upsert on
  \<^verbatim>\<open>(course_id, session_id)\<close>. The handler's writes are (\<open>handler_progress_distinct\<close>),
  but the edge function writes its row with a plain insert, after the handler has
  upserted the row of the same key. On the example inputs: on a table that does not
  enforce the key the run ends with two rows for one course and session; on a table
  that enforces it the insert is rejected unnoticed, and for a video that is not
  segmented the stage stays \<^verbatim>\<open>initialization\<close>.
\<close>

theorem C7_edge_function_inserts_progress:
  "quiz_generation_progress (fst (snd (pipeline exampleAnalyzeEnv exampleServeEnv exampleRequest
       (exampleWorld\<lparr>progress_key_enforced := False\<rparr>))))
     = [progressRow ''c2'' ''s1'' ''planning'' False, progressRow ''c2'' ''s1'' ''planning'' False]
   \<and> quiz_generation_progress (fst (snd (pipeline exampleAnalyzeEnv exampleShortVideoEnv
       exampleRequest exampleWorld)))
     = [progressRow ''c2'' ''s1'' ''initialization'' False]
   \<and> quiz_generation_progress (snd (serve exampleShortVideoEnv exampleInit
       (exampleWorld\<lparr>quiz_generation_progress :=
           [progressRow ''c1'' ''s1'' ''initialization'' False]\<rparr>)))
     = [progressRow ''c1'' ''s1'' ''initialization'' False]
   \<and> quiz_generation_progress (snd (serve exampleShortVideoEnv exampleInit
       (exampleWorld\<lparr>progress_key_enforced := False, quiz_generation_progress :=
           [progressRow ''c1'' ''s1'' ''initialization'' False]\<rparr>)))
     = [progressRow ''c1'' ''s1'' ''initialization'' False,
        progressRow ''c1'' ''s1'' ''planning'' False]"
  by code_simp

lemma find_in_set: "find P xs = Some x \<Longrightarrow> x \<in> set xs \<and> P x"
  by (induction xs) (auto split: if_splits)

lemma find_exists: "x \<in> set xs \<Longrightarrow> P x \<Longrightarrow> \<exists>y. find P xs = Some y"
  by (induction xs) auto

lemma set_existingCourses:
  "set (existingCourses w url) = {c \<in> set (courses w). c_youtube_url c = url}"
  by (simp add: existingCourses_def)

lemma cachedCourse_hit:
  assumes "\<not> cacheError env" and "c \<in> set (courses w)" and "c_youtube_url c = url"
    and "hasQuestions env w c"
  shows "\<exists>c'. cachedCourse env w url = Some c' \<and> c' \<in> set (courses w)
            \<and> c_youtube_url c' = url \<and> hasQuestions env w c'"
proof -
  have "c \<in> set (existingCourses w url)"
    using assms(2,3) by (simp add: set_existingCourses)
  then obtain c' where f: "find (hasQuestions env w) (existingCourses w url) = Some c'"
    using assms(4) find_exists by fastforce
  then have "c' \<in> set (existingCourses w url) \<and> hasQuestions env w c'"
    by (rule find_in_set)
  then show ?thesis
    using f assms(1) by (simp add: cachedCourse_def set_existingCourses)
qed

lemma find_first:
  "find P xs = Some x \<Longrightarrow> \<exists>i<length xs. xs ! i = x \<and> P x \<and> (\<forall>j<i. \<not> P (xs ! j))"
  by (auto simp add: find_Some_iff)

lemma existingCourses_descending:
  assumes "i \<le> j" and "j < length (existingCourses w url)"
  shows "c_created_at (existingCourses w url ! j) \<le> c_created_at (existingCourses w url ! i)"
proof -
  let ?xs = "existingCourses w url"
  have "rev (map c_created_at ?xs)
          = map c_created_at (sort_key c_created_at (filter (\<lambda>c. c_youtube_url c = url) (courses w)))"
    by (simp add: existingCourses_def rev_map)
  then have "sorted (rev (map c_created_at ?xs))" by simp
  then have "map c_created_at ?xs ! j \<le> map c_created_at ?xs ! i"
    using assms by (simp add: sorted_rev_iff_nth_mono)
  then show ?thesis using assms by simp
qed

lemma cachedCourse_newest:
  assumes "cachedCourse env w url = Some c'"
    and "c \<in> set (courses w)" and "c_youtube_url c = url" and "hasQuestions env w c"
  shows "c_created_at c \<le> c_created_at c'"
proof -
  let ?xs = "existingCourses w url"
  have f: "find (hasQuestions env w) ?xs = Some c'"
    using assms(1) by (simp add: cachedCourse_def split: if_splits)
  from find_first [OF f] obtain i where i: "i < length ?xs" "?xs ! i = c'"
    "\<forall>j<i. \<not> hasQuestions env w (?xs ! j)"
    by blast
  have "c \<in> set ?xs" using assms(2,3) by (simp add: set_existingCourses)
  then obtain k where k: "k < length ?xs" "?xs ! k = c"
    by (auto simp add: in_set_conv_nth)
  have "i \<le> k"
  proof (rule ccontr)
    assume "\<not> i \<le> k"
    then have "\<not> hasQuestions env w (?xs ! k)" using i(3) by simp
    then show False using k(2) assms(4) by simp
  qed
  from existingCourses_descending [OF this k(1)] show ?thesis
    using i(2) k(2) by simp
qed

text \<open>
  Claim C8 is stated for every POST with the cache in use and no course id. Four runs
  show what it leaves out. The handler first checks the required fields: a request
  without a session id is answered with status 400, whatever the cache holds. A URL that
  \<open>isValidYouTubeUrl\<close> refuses is answered with status 400 although a course with that
  URL and a question is stored. When the cache query fails, the stored course is not
  found and a new course row is inserted. And when several stored courses have
  questions, the id returned is that of the one created last, not that of an older one.
\<close>

theorem C8_guards_counterexample:
  "cachedCourse exampleAnalyzeEnv exampleCachedWorld
        (sanitizeYouTubeUrl exampleAnalyzeEnv ''https://www.youtube.com/watch?v=abc'')
       = Some exampleCourse
   \<and> questions exampleCachedWorld = [\<lparr>q_id = ''q1'', q_course_id = c_id exampleCourse\<rparr>]
   \<and> a_method (exampleRequest\<lparr>a_session_id := None\<rparr>) = ''POST''
   \<and> a_useCache (exampleRequest\<lparr>a_session_id := None\<rparr>) = None
   \<and> a_course_id (exampleRequest\<lparr>a_session_id := None\<rparr>) = None
   \<and> status (fst (handler timeoutEdge exampleAnalyzeEnv
                 (exampleRequest\<lparr>a_session_id := None\<rparr>) exampleCachedWorld)) = 400
   \<and> cachedCourse exampleAnalyzeEnv exampleOddUrlWorld
        (sanitizeYouTubeUrl exampleAnalyzeEnv ''vimeo.com/1'')
       = Some (exampleCourse\<lparr>c_youtube_url := ''vimeo.com/1''\<rparr>)
   \<and> status (fst (handler timeoutEdge exampleAnalyzeEnv
                 (exampleRequest\<lparr>a_youtube_url := Some ''vimeo.com/1''\<rparr>)
                 exampleOddUrlWorld)) = 400
   \<and> cached (fst (handler timeoutEdge (exampleAnalyzeEnv\<lparr>cacheError := True\<rparr>)
                 exampleRequest exampleCachedWorld)) = None
   \<and> map c_id (courses (fst (snd (handler timeoutEdge (exampleAnalyzeEnv\<lparr>cacheError := True\<rparr>)
                 exampleRequest exampleCachedWorld)))) = [''c1'', ''c2'']
   \<and> list_ex (\<lambda>q. q_course_id q = ''c1'') (questions exampleTwoCachedWorld)
   \<and> map c_youtube_url (filter (\<lambda>c. c_id c = ''c1'') (courses exampleTwoCachedWorld))
       = [sanitizeYouTubeUrl exampleAnalyzeEnv ''https://www.youtube.com/watch?v=abc'']
   \<and> out_course_id (fst (handler timeoutEdge exampleAnalyzeEnv exampleRequest
                 exampleTwoCachedWorld)) = Some ''c3''"
  by code_simp

text \<open>
  Claim C8, amended. A POST that carries a non-empty \<^verbatim>\<open>youtube_url\<close> accepted by
  \<open>isValidYouTubeUrl\<close> and a non-empty \<^verbatim>\<open>session_id\<close>, with the cache in use and no
  course id: if the cache query succeeds and some stored course with the sanitized URL
  has a question that its query finds, the handler answers with status 200, with the id
  of the course created last among those, \<^verbatim>\<open>cached: true\<close> and
  \<^verbatim>\<open>segmented: false\<close>; the world is unchanged (no course row is added) and no
  call is made.
\<close>

theorem C8_cache_hit_returns_existing_course:
  assumes "a_method req = ''POST''"
    and "a_youtube_url req = Some url" and "url \<noteq> []"
    and "a_session_id req = Some sid" and "sid \<noteq> []"
    and "isValidYouTubeUrl url"
    and "a_useCache req = None \<or> a_useCache req = Some True"
    and "\<not> truthy (a_course_id req)"
    and "\<not> cacheError env"
    and "c \<in> set (courses w)" and "c_youtube_url c = sanitizeYouTubeUrl env url"
    and "\<not> questionsError env (c_id c)"
    and "\<exists>q \<in> set (questions w). q_course_id q = c_id c"
  shows "\<exists>c'. c' \<in> set (courses w) \<and> c_youtube_url c' = sanitizeYouTubeUrl env url
          \<and> (\<exists>q \<in> set (questions w). q_course_id q = c_id c')
          \<and> (\<forall>c'' \<in> set (courses w).
                c_youtube_url c'' = sanitizeYouTubeUrl env url
                \<and> \<not> questionsError env (c_id c'')
                \<and> (\<exists>q \<in> set (questions w). q_course_id q = c_id c'')
                \<longrightarrow> c_created_at c'' \<le> c_created_at c')
          \<and> handler edge env req w =
               (\<lparr>status = 200, success = Some True, error_text = None,
                 out_session_id = Some sid, out_course_id = Some (c_id c'),
                 cached = Some True, segmented = Some False,
                 background_processing = None\<rparr>, w, [])"
proof -
  have hq: "hasQuestions env w c"
    using assms(12,13) by (simp add: hasQuestions_def list_ex_iff)
  from cachedCourse_hit [OF assms(9,10,11) hq]
  obtain c' where c': "cachedCourse env w (sanitizeYouTubeUrl env url) = Some c'"
    "c' \<in> set (courses w)" "c_youtube_url c' = sanitizeYouTubeUrl env url"
    "hasQuestions env w c'"
    by blast
  have "prepare env req w =
          Inl (\<lparr>status = 200, success = Some True, error_text = None,
                 out_session_id = Some sid, out_course_id = Some (c_id c'),
                 cached = Some True, segmented = Some False,
                 background_processing = None\<rparr>, w, [])"
    using assms(1-8) c'(1) by (auto simp add: prepare_def Let_def truthy_def)
  then have h: "handler edge env req w =
               (\<lparr>status = 200, success = Some True, error_text = None,
                 out_session_id = Some sid, out_course_id = Some (c_id c'),
                 cached = Some True, segmented = Some False,
                 background_processing = None\<rparr>, w, [])"
    by (simp add: handler_def)
  have q: "\<exists>q \<in> set (questions w). q_course_id q = c_id c'"
    using c'(4) by (simp add: hasQuestions_def list_ex_iff)
  have newest: "c_created_at c'' \<le> c_created_at c'"
    if "c'' \<in> set (courses w)" and "c_youtube_url c'' = sanitizeYouTubeUrl env url
                \<and> \<not> questionsError env (c_id c'')
                \<and> (\<exists>q \<in> set (questions w). q_course_id q = c_id c'')" for c''
  proof -
    have "hasQuestions env w c''" using that(2) by (simp add: hasQuestions_def list_ex_iff)
    with cachedCourse_newest [OF c'(1) that(1)] that(2) show ?thesis by blast
  qed
  from h q newest c'(2,3) show ?thesis by blast
qed

theorem C8_cache_hit_returns_existing_course_witness:
  "handler timeoutEdge exampleAnalyzeEnv exampleRequest exampleTwoCachedWorld =
     (\<lparr>status = 200, success = Some True, error_text = None,
       out_session_id = Some ''s1'', out_course_id = Some ''c3'',
       cached = Some True, segmented = Some False,
       background_processing = None\<rparr>, exampleTwoCachedWorld, [])
   \<and> map c_id (courses (fst (snd (handler timeoutEdge exampleAnalyzeEnv exampleRequest
        exampleTwoCachedWorld)))) = [''c3'', ''c1'', ''c4'']"
proof -
  let ?url = "''https://www.youtube.com/watch?v=abc''"
  have h: "a_method exampleRequest = ''POST''" "a_youtube_url exampleRequest = Some ?url"
    "?url \<noteq> []" "a_session_id exampleRequest = Some ''s1''" "''s1'' \<noteq> []"
    "a_useCache exampleRequest = None \<or> a_useCache exampleRequest = Some True"
    "\<not> truthy (a_course_id exampleRequest)" "\<not> cacheError exampleAnalyzeEnv"
    by (simp_all add: exampleRequest_def exampleAnalyzeEnv_def truthy_def)
  have v: "isValidYouTubeUrl ?url" by code_simp
  have cs: "courses exampleTwoCachedWorld
      = [exampleCourse\<lparr>c_id := ''c3'', c_created_at := 5\<rparr>, exampleCourse,
         exampleCourse\<lparr>c_id := ''c4'', c_created_at := 9\<rparr>]"
    by (simp add: exampleTwoCachedWorld_def exampleWorld_def)
  have qs: "questions exampleTwoCachedWorld
      = [\<lparr>q_id = ''q1'', q_course_id = ''c1''\<rparr>, \<lparr>q_id = ''q3'', q_course_id = ''c3''\<rparr>]"
    by (simp add: exampleTwoCachedWorld_def exampleWorld_def)
  have c: "exampleCourse \<in> set (courses exampleTwoCachedWorld)"
    "\<not> questionsError exampleAnalyzeEnv (c_id exampleCourse)"
    "\<exists>q \<in> set (questions exampleTwoCachedWorld). q_course_id q = c_id exampleCourse"
    by (simp_all add: cs qs exampleAnalyzeEnv_def noQuestionsError_def exampleCourse_def)
  have u: "c_youtube_url exampleCourse = sanitizeYouTubeUrl exampleAnalyzeEnv ?url"
    by code_simp
  from C8_cache_hit_returns_existing_course
    [OF h(1) h(2) h(3) h(4) h(5) v h(6) h(7) h(8) c(1) u c(2) c(3), where edge = timeoutEdge]
  obtain c' where in': "c' \<in> set (courses exampleTwoCachedWorld)"
    and q': "\<exists>q \<in> set (questions exampleTwoCachedWorld). q_course_id q = c_id c'"
    and newest: "\<forall>c'' \<in> set (courses exampleTwoCachedWorld).
                c_youtube_url c'' = sanitizeYouTubeUrl exampleAnalyzeEnv ?url
                \<and> \<not> questionsError exampleAnalyzeEnv (c_id c'')
                \<and> (\<exists>q \<in> set (questions exampleTwoCachedWorld). q_course_id q = c_id c'')
                \<longrightarrow> c_created_at c'' \<le> c_created_at c'"
    and run: "handler timeoutEdge exampleAnalyzeEnv exampleRequest exampleTwoCachedWorld =
               (\<lparr>status = 200, success = Some True, error_text = None,
                 out_session_id = Some ''s1'', out_course_id = Some (c_id c'),
                 cached = Some True, segmented = Some False,
                 background_processing = None\<rparr>, exampleTwoCachedWorld, [])"
    by blast
  let ?c3 = "exampleCourse\<lparr>c_id := ''c3'', c_created_at := 5\<rparr>"
  have u3: "c_youtube_url ?c3 = sanitizeYouTubeUrl exampleAnalyzeEnv ?url"
    using u by simp
  have "?c3 \<in> set (courses exampleTwoCachedWorld)" by (simp add: cs)
  moreover have "\<not> questionsError exampleAnalyzeEnv (c_id ?c3)"
    by (simp add: exampleAnalyzeEnv_def noQuestionsError_def)
  moreover have "\<exists>q \<in> set (questions exampleTwoCachedWorld). q_course_id q = c_id ?c3"
    by (simp add: qs)
  ultimately have five: "5 \<le> c_created_at c'"
    using newest u3 by fastforce
  have "c_id c' = ''c3''"
    using in' q' five by (auto simp add: cs qs exampleCourse_def)
  with run show ?thesis by (simp add: cs exampleCourse_def)
qed

section \<open>Properties of the URL patterns\<close>

lemma second_pattern_only:
  "isValidYouTubeUrl url \<and> extractVideoId url = None \<longleftrightarrow>
     regexMatch shortPatternAt url = None \<and> regexMatch longPatternAt url \<noteq> None"
  by (auto simp add: isValidYouTubeUrl_def extractVideoId_def)

text \<open>
  Claim C10 says that a URL accepted by \<open>isValidYouTubeUrl\<close> always has a video id for
  the edge function. The validation accepts a second pattern that the edge function's
  \<open>extractVideoId\<close> does not know: a watch URL with another parameter before \<^verbatim>\<open>v=\<close>
  passes the validation, the edge function answers 500 with
  \<^verbatim>\<open>Invalid YouTube URL\<close>, and the handler marks the progress row failed.
\<close>

theorem C10_accepted_url_fails_in_edge_function:
  "isValidYouTubeUrl ''https://www.youtube.com/watch?feature=share&v=abc''
   \<and> extractVideoId ''https://www.youtube.com/watch?feature=share&v=abc'' = None
   \<and> fst (serve exampleServeEnv
        (exampleInit\<lparr>ir_youtube_url := ''https://www.youtube.com/watch?feature=share&v=abc''\<rparr>)
        exampleWorld) = Some (failure ''Invalid YouTube URL'')
   \<and> status (fst (pipeline exampleAnalyzeEnv exampleServeEnv
        (exampleRequest\<lparr>a_youtube_url :=
            Some ''https://www.youtube.com/watch?feature=share&v=abc''\<rparr>) exampleWorld)) = 500
   \<and> map p_stage (quiz_generation_progress (fst (snd (pipeline exampleAnalyzeEnv exampleServeEnv
        (exampleRequest\<lparr>a_youtube_url :=
            Some ''https://www.youtube.com/watch?feature=share&v=abc''\<rparr>) exampleWorld))))
       = [''failed'']"
  by code_simp

section \<open>Properties of the rating endpoint\<close>


lemma ratingKey_row [simp]:
  "ratingKey \<lparr>ur_user_id = u, ur_course_id = c, ur_rating = n, ur_context = x\<rparr> = (u, c)"
  by (simp add: ratingKey_def)




lemma ratingHandler_keeps_keys_distinct:
  assumes "distinct (map ratingKey (user_course_ratings w))"
  shows "distinct (map ratingKey (user_course_ratings (snd (ratingHandler env req w))))"
  using assms upsertBy_distinct [OF assms]
  by (auto simp add: ratingHandler_def Let_def distinct_map_filter split: option.splits)


end
